theory Spec2Isabelle
  imports Main "HOL-Library.AList"
begin

section \<open>Strings and the regular expressions of the bundling script\<close>

text \<open>
  JavaScript strings are modelled as \<^typ>\<open>string\<close>. Each regular expression of the
  source is written out as the function on strings that it computes; the expression is
  quoted beside its definition.
\<close>

definition ends_with :: "string \<Rightarrow> string \<Rightarrow> bool" where
  "ends_with s suf = (length suf \<le> length s \<and> drop (length s - length suf) s = suf)"

definition starts_with :: "string \<Rightarrow> string \<Rightarrow> bool" where
  "starts_with s pre = (take (length pre) s = pre)"

definition chop :: "nat \<Rightarrow> string \<Rightarrow> string" where
  "chop n s = take (length s - n) s"

text \<open>\<^verbatim>\<open>s.replace(/^\.\//, '')\<close>: one leading \<^verbatim>\<open>./\<close> is removed.\<close>

definition strip_dot_slash :: "string \<Rightarrow> string" where
  "strip_dot_slash s = (if starts_with s ''./'' then drop 2 s else s)"

text \<open>
  \<^verbatim>\<open>s.replace(/\.[jt]sx?$/, '')\<close>: the expression is anchored at the end of the string,
  so the only possible match is a suffix \<^verbatim>\<open>.js\<close>, \<^verbatim>\<open>.ts\<close>, \<^verbatim>\<open>.jsx\<close> or \<^verbatim>\<open>.tsx\<close>.
\<close>

definition strip_script_ext :: "string \<Rightarrow> string" where
  "strip_script_ext s =
     (if ends_with s ''.jsx'' \<or> ends_with s ''.tsx'' then chop 4 s
      else if ends_with s ''.js'' \<or> ends_with s ''.ts'' then chop 3 s
      else s)"

text \<open>\<^verbatim>\<open>s.replace(/\.tsx?$/, '')\<close>.\<close>

definition strip_ts_ext :: "string \<Rightarrow> string" where
  "strip_ts_ext s =
     (if ends_with s ''.tsx'' then chop 4 s
      else if ends_with s ''.ts'' then chop 3 s
      else s)"

text \<open>\<^verbatim>\<open>s.replace(/\.js$/, repl)\<close>.\<close>

definition replace_js_ext :: "string \<Rightarrow> string \<Rightarrow> string" where
  "replace_js_ext repl s = (if ends_with s ''.js'' then chop 3 s @ repl else s)"

section \<open>Output identifiers\<close>

text \<open>
  \<^verbatim>\<open>
  function buildOutputId(relSrcPath: string): string {
    return relSrcPath
      .replace(/^\.\//, '')
      .replace(/\.[jt]sx?$/, '')
  }
  \<close>
\<close>

definition buildOutputId :: "string \<Rightarrow> string" where
  "buildOutputId relSrcPath = strip_script_ext (strip_dot_slash relSrcPath)"

section \<open>JavaScript values\<close>

text \<open>
  What a dynamically loaded generator may hand back is any JavaScript value. Plain
  objects (and arrays, whose keys are their indices) are lists of own enumerable
  properties in enumeration order. Numbers are integers here: no claim below reads one.
\<close>

datatype jsval =
    JUndefined
  | JNull
  | JBool bool
  | JNum int
  | JStr string
  | JObj "(string \<times> jsval) list"
  | JFunction

text \<open>The \<^verbatim>\<open>typeof\<close> operator; \<^verbatim>\<open>typeof null\<close> is \<^verbatim>\<open>'object'\<close>.\<close>

fun typeof :: "jsval \<Rightarrow> string" where
  "typeof JUndefined = ''undefined''"
| "typeof JNull = ''object''"
| "typeof (JBool b) = ''boolean''"
| "typeof (JNum n) = ''number''"
| "typeof (JStr s) = ''string''"
| "typeof (JObj ps) = ''object''"
| "typeof JFunction = ''function''"

text \<open>Conversion to boolean of a value in a condition.\<close>

fun truthy :: "jsval \<Rightarrow> bool" where
  "truthy JUndefined = False"
| "truthy JNull = False"
| "truthy (JBool b) = b"
| "truthy (JNum n) = (n \<noteq> 0)"
| "truthy (JStr s) = (s \<noteq> [])"
| "truthy (JObj ps) = True"
| "truthy JFunction = True"

subsection \<open>Objects used as maps\<close>

text \<open>
  The script keeps its maps in plain objects (\<^verbatim>\<open>{}\<close>, or objects parsed from the
  manifest). Such an object is the association list of its own properties, in
  enumeration order, and its prototype is \<^verbatim>\<open>Object.prototype\<close>: a read \<^verbatim>\<open>obj[key]\<close> and a
  test \<^verbatim>\<open>key in obj\<close> that find no own property go on to the members of the prototype.
  These are functions, except \<^verbatim>\<open>__proto__\<close>, which reads as the prototype object
  itself; all are truthy and none is enumerable.
\<close>

definition object_prototype_names :: "string list" where
  "object_prototype_names =
     [''constructor'', ''hasOwnProperty'', ''isPrototypeOf'', ''propertyIsEnumerable'',
      ''toLocaleString'', ''toString'', ''valueOf'', ''__defineGetter__'',
      ''__defineSetter__'', ''__lookupGetter__'', ''__lookupSetter__'', ''__proto__'']"

definition inherited_member :: "string \<Rightarrow> jsval option" where
  "inherited_member key =
     (if key = ''__proto__'' then Some (JObj [])
      else if key \<in> set object_prototype_names then Some JFunction
      else None)"

datatype 'v property = Own 'v | Inherited jsval | Missing

definition get_property :: "(string \<times> 'v) list \<Rightarrow> string \<Rightarrow> 'v property" where
  "get_property obj key =
     (case map_of obj key of
        Some v \<Rightarrow> Own v
      | None \<Rightarrow> (case inherited_member key of Some m \<Rightarrow> Inherited m | None \<Rightarrow> Missing))"

text \<open>The operator \<^verbatim>\<open>key in obj\<close>.\<close>

definition has_property :: "(string \<times> 'v) list \<Rightarrow> string \<Rightarrow> bool" where
  "has_property obj key = (get_property obj key \<noteq> Missing)"

text \<open>
  An assignment \<^verbatim>\<open>obj[key] = value\<close> overwrites an own property where it stands, and
  otherwise creates one. Own properties are enumerated with the array indices first
  (the canonical decimal numerals below \<^verbatim>\<open>4294967295\<close>), in ascending order, and then
  the other keys in the order of their creation. An assignment under the key
  \<^verbatim>\<open>__proto__\<close> runs the setter of the prototype instead of storing a property; that
  one key is outside the model.
\<close>

definition is_digit :: "char \<Rightarrow> bool" where
  "is_digit c = (48 \<le> (of_char c :: nat) \<and> (of_char c :: nat) \<le> 57)"

definition index_value :: "string \<Rightarrow> nat" where
  "index_value key = foldl (\<lambda>n c. 10 * n + ((of_char c :: nat) - 48)) 0 key"

definition is_index_key :: "string \<Rightarrow> bool" where
  "is_index_key key =
     (key \<noteq> [] \<and> list_all is_digit key \<and> (key = ''0'' \<or> hd key \<noteq> CHR ''0'')
      \<and> index_value key \<le> 4294967294)"

fun insert_index :: "string \<Rightarrow> 'v \<Rightarrow> (string \<times> 'v) list \<Rightarrow> (string \<times> 'v) list" where
  "insert_index key v [] = [(key, v)]"
| "insert_index key v (p # ps) =
     (if is_index_key (fst p) \<and> index_value (fst p) < index_value key
      then p # insert_index key v ps
      else (key, v) # p # ps)"

definition obj_set :: "string \<Rightarrow> 'v \<Rightarrow> (string \<times> 'v) list \<Rightarrow> (string \<times> 'v) list" where
  "obj_set key v obj =
     (if is_index_key key \<and> key \<notin> fst ` set obj then insert_index key v obj
      else AList.update key v obj)"

text \<open>
  The keys visited by \<^verbatim>\<open>for (const key in v)\<close>, and the property read \<^verbatim>\<open>v[key]\<close>, on
  a value.
\<close>

fun for_in_keys :: "jsval \<Rightarrow> string list" where
  "for_in_keys (JObj ps) = map fst ps"
| "for_in_keys v = []"

fun get_prop :: "jsval \<Rightarrow> string \<Rightarrow> jsval" where
  "get_prop (JObj ps) key =
     (case get_property ps key of Own v \<Rightarrow> v | Inherited m \<Rightarrow> m | Missing \<Rightarrow> JUndefined)"
| "get_prop v key = JUndefined"

text \<open>
  A thrown \<^verbatim>\<open>new Error(message)\<close>, the \<^verbatim>\<open>TypeError\<close> of a property read on
  \<^verbatim>\<open>undefined\<close>, and a value thrown by code outside the script (a rejected dynamic
  import, an exception of a generator), which the script lets through as it is.
\<close>

datatype error = Error string | TypeError | Thrown jsval

text \<open>
  \<^verbatim>\<open>str.replace(pattern, replacement)\<close> with a one-character string pattern: the first
  occurrence is replaced, and the replacement is a template in which \<^verbatim>\<open>$$\<close> stands for
  a dollar sign, \<^verbatim>\<open>$&\<close> for the matched text, \<^verbatim>\<open>$`\<close> for the text before the match and
  \<^verbatim>\<open>$'\<close> for the text after it. A string pattern has no capture groups, so every other
  use of \<^verbatim>\<open>$\<close> stands for itself.
\<close>

fun get_substitution :: "string \<Rightarrow> string \<Rightarrow> string \<Rightarrow> string \<Rightarrow> string" where
  "get_substitution matched pre post [] = []"
| "get_substitution matched pre post [c] = [c]"
| "get_substitution matched pre post (c # d # r) =
     (if c = CHR ''$'' \<and> d = CHR ''$'' then CHR ''$'' # get_substitution matched pre post r
      else if c = CHR ''$'' \<and> d = CHR ''&'' then matched @ get_substitution matched pre post r
      else if c = CHR ''$'' \<and> d = CHR 0x60 then pre @ get_substitution matched pre post r
      else if c = CHR ''$'' \<and> d = CHR 0x27 then post @ get_substitution matched pre post r
      else c # get_substitution matched pre post (d # r))"

definition replace_char :: "string \<Rightarrow> char \<Rightarrow> string \<Rightarrow> string" where
  "replace_char str pat replacement =
     (let pre = takeWhile (\<lambda>c. c \<noteq> pat) str;
          rest = dropWhile (\<lambda>c. c \<noteq> pat) str
      in if rest = [] then str
         else pre @ get_substitution [pat] pre (tl rest) replacement @ tl rest)"

text \<open>
  \<^verbatim>\<open>s.replace(/\.tsx?/, '')\<close>, not anchored: the first \<^verbatim>\<open>.ts\<close> anywhere in the string
  goes, with the \<^verbatim>\<open>x\<close> after it when there is one.
\<close>

fun remove_first_ts :: "string \<Rightarrow> string" where
  "remove_first_ts [] = []"
| "remove_first_ts (c # cs) =
     (if starts_with (c # cs) ''.ts''
      then (if starts_with (drop 2 cs) ''x'' then drop 3 cs else drop 2 cs)
      else c # remove_first_ts cs)"

section \<open>Paths\<close>

text \<open>
  The functions of Node's \<^verbatim>\<open>path\<close> module that the script imports, in their POSIX
  form. \<^verbatim>\<open>normalizeString\<close> walks the segments between slashes: empty segments and
  \<^verbatim>\<open>.\<close> are dropped, \<^verbatim>\<open>..\<close> removes the segment before it, or stays when there is
  none to remove and the path is relative.
\<close>

fun split_slash :: "string \<Rightarrow> string list" where
  "split_slash [] = [[]]"
| "split_slash (c # cs) =
     (if c = CHR ''/'' then [] # split_slash cs
      else (case split_slash cs of [] \<Rightarrow> [[c]] | s # ss \<Rightarrow> (c # s) # ss))"

fun join_slash :: "string list \<Rightarrow> string" where
  "join_slash [] = []"
| "join_slash [s] = s"
| "join_slash (s # t # ss) = s @ ''/'' @ join_slash (t # ss)"

definition normalize_step :: "bool \<Rightarrow> string list \<Rightarrow> string \<Rightarrow> string list" where
  "normalize_step allowAboveRoot res seg =
     (if seg = [] \<or> seg = ''.'' then res
      else if seg = ''..'' then
        (if res \<noteq> [] \<and> last res \<noteq> ''..'' then butlast res
         else if allowAboveRoot then res @ [''..'']
         else res)
      else res @ [seg])"

definition normalizeString :: "string \<Rightarrow> bool \<Rightarrow> string" where
  "normalizeString path allowAboveRoot =
     join_slash (foldl (normalize_step allowAboveRoot) [] (split_slash path))"

definition isAbsolute :: "string \<Rightarrow> bool" where
  "isAbsolute path = starts_with path ''/''"

definition normalizePath :: "string \<Rightarrow> string" where
  "normalizePath path =
     (if path = [] then ''.''
      else
        let trailingSeparator = ends_with path ''/'';
            res = normalizeString path (\<not> isAbsolute path)
        in if res = [] then
             (if isAbsolute path then ''/'' else if trailingSeparator then ''./'' else ''.'')
           else (if isAbsolute path then ''/'' else []) @ res
                @ (if trailingSeparator then ''/'' else []))"

text \<open>\<^verbatim>\<open>path.join(...args)\<close>: empty arguments are skipped.\<close>

definition joinPaths :: "string list \<Rightarrow> string" where
  "joinPaths args =
     (let joined = join_slash (filter (\<lambda>arg. arg \<noteq> []) args)
      in if joined = [] then ''.'' else normalizePath joined)"

text \<open>
  \<^verbatim>\<open>path.resolve(p)\<close> with one argument; the working directory of the process is the
  parameter \<open>cwd\<close>.
\<close>

definition resolvePath :: "string \<Rightarrow> string \<Rightarrow> string" where
  "resolvePath cwd p =
     (let resolvedPath = (if isAbsolute p then p @ ''/''
                          else if p = [] then cwd @ ''/''
                          else cwd @ ''/'' @ p @ ''/'');
          res = normalizeString resolvedPath (\<not> isAbsolute resolvedPath)
      in if isAbsolute resolvedPath then ''/'' @ res
         else if res = [] then ''.'' else res)"

text \<open>
  \<^verbatim>\<open>path.dirname(path)\<close>: trailing slashes are skipped, then the last segment, and the
  path up to the slash before it is returned.
\<close>

definition dirname :: "string \<Rightarrow> string" where
  "dirname path =
     (if path = [] then ''.''
      else
        let hasRoot = (hd path = CHR ''/'');
            r = dropWhile (\<lambda>c. c \<noteq> CHR ''/'')
                  (dropWhile (\<lambda>c. c = CHR ''/'') (rev (tl path)))
        in if r = [] then (if hasRoot then ''/'' else ''.'')
           else if hasRoot \<and> length r = 1 then ''//''
           else hd path # rev (tl r))"

text \<open>\<^verbatim>\<open>/^\.\.?\/?/.test(path)\<close>: only the first dot is required.\<close>

definition isPathRelative :: "string \<Rightarrow> bool" where
  "isPathRelative path = starts_with path ''.''"

text \<open>
  \<^verbatim>\<open>
  function buildTscPath(pkgDir: string, relSrcPath: string, ext: string) {
    return joinPaths(pkgDir, 'dist', '.tsc', relSrcPath).replace(/\.tsx?$/, '') + ext
  }
  \<close>
\<close>

definition buildTscPath :: "string \<Rightarrow> string \<Rightarrow> string \<Rightarrow> string" where
  "buildTscPath pdir relSrcPath ext =
     strip_ts_ext (joinPaths [pdir, ''dist'', ''.tsc'', relSrcPath]) @ ext"

text \<open>
  \<^verbatim>\<open>
  function computeImportPath(id: string, importer: string | undefined): string | undefined {
    if (!importer) {
      if (isPathRelative(id)) { return resolvePath(id) } else { return id }
    } else {
      if (isPathRelative(id)) { return joinPaths(dirname(importer), id) }
    }
  }
  \<close>
  An importer that is the empty string is falsy, like \<^verbatim>\<open>undefined\<close>.
\<close>

definition computeImportPath :: "string \<Rightarrow> string \<Rightarrow> string option \<Rightarrow> string option" where
  "computeImportPath cwd ident importer =
     (if importer = None \<or> importer = Some [] then
        (if isPathRelative ident then Some (resolvePath cwd ident) else Some ident)
      else
        (if isPathRelative ident then Some (joinPaths [dirname (the importer), ident])
         else None))"

text \<open>
  \<^verbatim>\<open>importId.match(/^(@[a-z-.]+\/)?[a-z-.]+/)\<close>. The class holds the lower-case letters,
  the hyphen and the dot. With a leading \<^verbatim>\<open>@\<close> the optional group must match (without
  it the name part would have to start at the \<^verbatim>\<open>@\<close>), so a scope, a slash and a
  non-empty name are needed; otherwise the match is the longest run of class characters
  at the start, when there is one.
\<close>

definition is_name_char :: "char \<Rightarrow> bool" where
  "is_name_char c =
     ((97 \<le> (of_char c :: nat) \<and> (of_char c :: nat) \<le> 122) \<or> c = CHR ''-'' \<or> c = CHR ''.'')"

definition extractPkgName :: "string \<Rightarrow> string option" where
  "extractPkgName importId =
     (if starts_with importId ''@'' then
        (let scope = takeWhile is_name_char (tl importId);
             rest = dropWhile is_name_char (tl importId)
         in if scope \<noteq> [] \<and> starts_with rest ''/'' \<and> takeWhile is_name_char (tl rest) \<noteq> []
            then Some (''@'' @ scope @ ''/'' @ takeWhile is_name_char (tl rest))
            else None)
      else
        (let m = takeWhile is_name_char importId
         in if m \<noteq> [] then Some m else None))"

section \<open>Package metadata and analysis\<close>

text \<open>
  The manifest types are declared in a module that is not among the sources at hand;
  the fields below are the ones the bundling script reads, with the optional ones as
  options: the per-kind flags \<^verbatim>\<open>esm\<close>, \<^verbatim>\<open>cjs\<close> and \<^verbatim>\<open>types\<close>, the export map from
  entry identifier to entry configuration (an optional \<^verbatim>\<open>generator\<close> reference, an
  optional \<^verbatim>\<open>iife\<close> object with \<^verbatim>\<open>name\<close>, \<^verbatim>\<open>globals\<close> and \<^verbatim>\<open>generator\<close>), and the
  three dependency maps. Objects used as maps are association lists in key order.
\<close>

record iife_config =
  iife_name :: "string option"
  iife_globals :: "(string \<times> string) list option"
  iife_generator :: "string option"

record entry_config =
  generator :: "string option"
  iife :: "iife_config option"

record build_config =
  esm :: "bool option"
  cjs :: "bool option"
  types :: "bool option"
  exports :: "(string \<times> entry_config) list option"

record pkg_meta =
  buildConfig :: "build_config option"
  dependencies :: "(string \<times> string) list option"
  peerDependencies :: "(string \<times> string) list option"
  devDependencies :: "(string \<times> string) list option"

text \<open>
  \<^verbatim>\<open>
  interface PkgAnalysis {
    pkgDir: string
    pkgMeta: SrcPkgMeta
    entryConfigMap: EntryConfigMap
    relSrcPathMap: RelSrcPathMap
    entryContentMap: EntryContentMap // entryIds are expanded
    iifeEntryContentMap: EntryContentMap // entryIds are expanded
  }
  \<close>
\<close>

record pkg_analysis =
  pkgDir :: string
  pkgMeta :: pkg_meta
  entryConfigMap :: "(string \<times> entry_config) list"
  relSrcPathMap :: "(string \<times> string list) list"
  entryContentMap :: "(string \<times> jsval) list"
  iifeEntryContentMap :: "(string \<times> jsval) list"

text \<open>
  What lies outside the script. A dynamic \<^verbatim>\<open>import(path)\<close> is rejected with some
  reason, or loads a module whose default export is not callable, or one whose default
  export is a function; the awaited call of that function returns a value or throws
  one (a rejected promise counts as a throw). The file-system query
  \<^verbatim>\<open>globby(pattern, {cwd})\<close> answers with a list of paths.
\<close>

datatype call_result = Returns jsval | Throws jsval

datatype generator_export =
    ImportRejects jsval
  | NotCallable
  | Callable "string \<Rightarrow> call_result"

record env =
  modules :: "string \<Rightarrow> generator_export"
  globby :: "string \<Rightarrow> string \<Rightarrow> string list"

section \<open>Generated content\<close>

text \<open>
  \<^verbatim>\<open>
  async function generateEntryContent(entryId, generatorPath) {
    const generatorExports = await import(generatorPath)
    const generatorFunc = generatorExports.default
    const entryContentMap: EntryContentMap = {}
    if (typeof generatorFunc !== 'function') {
      throw new Error('Generator must have a default function export')
    }
    const generatorRes = await generatorFunc(entryId)
    if (typeof generatorRes === 'string') {
      if (entryId.indexOf('*') !== -1) {
        throw new Error('Generator string output can\'t have blob entrypoint name')
      }
      entryContentMap[entryId] = generatorRes
    } else if (typeof generatorRes === 'object') {
      if (entryId.indexOf('*') === -1) {
        throw new Error('Generator object output must have blob entrypoint name')
      }
      for (const key in generatorRes) {
        const expandedEntryId = entryId.replace('*', key)
        entryContentMap[expandedEntryId] = generatorRes[key]
      }
    } else {
      throw new Error('Invalid type of generator output')
    }
    return entryContentMap
  }
  \<close>
\<close>

definition has_wildcard :: "string \<Rightarrow> bool" where
  "has_wildcard entryId = (CHR ''*'' \<in> set entryId)"

definition expand_keys :: "string \<Rightarrow> jsval \<Rightarrow> (string \<times> jsval) list" where
  "expand_keys entryId generatorRes =
     foldl (\<lambda>m key. obj_set (replace_char entryId (CHR ''*'') key) (get_prop generatorRes key) m)
       [] (for_in_keys generatorRes)"

definition normalize_result ::
  "string \<Rightarrow> jsval \<Rightarrow> error + (string \<times> jsval) list" where
  "normalize_result entryId generatorRes =
     (if typeof generatorRes = ''string'' then
        (if has_wildcard entryId
         then Inl (Error (''Generator string output can'' @ [CHR 0x27]
                            @ ''t have blob entrypoint name''))
         else Inr (obj_set entryId generatorRes []))
      else if typeof generatorRes = ''object'' then
        (if \<not> has_wildcard entryId
         then Inl (Error ''Generator object output must have blob entrypoint name'')
         else Inr (expand_keys entryId generatorRes))
      else Inl (Error ''Invalid type of generator output''))"

definition generateEntryContent ::
  "(string \<Rightarrow> generator_export) \<Rightarrow> string \<Rightarrow> string \<Rightarrow> error + (string \<times> jsval) list" where
  "generateEntryContent mods entryId generatorPath =
     (case mods generatorPath of
        ImportRejects reason \<Rightarrow> Inl (Thrown reason)
      | NotCallable \<Rightarrow> Inl (Error ''Generator must have a default function export'')
      | Callable generatorFunc \<Rightarrow>
          (case generatorFunc entryId of
             Throws reason \<Rightarrow> Inl (Thrown reason)
           | Returns generatorRes \<Rightarrow> normalize_result entryId generatorRes))"

section \<open>Package analysis\<close>

text \<open>
  \<^verbatim>\<open>
  async function queryRelSrcPaths(pkgDir: string, entryId: string): Promise<string[]> {
    const srcDir = joinPaths(pkgDir, 'src')
    return (
      await globby(
        (entryId === '.' ? 'index' : entryId.replace(/^\.\//, '')) + '.{ts,tsx}',
        { cwd: srcDir },
      )
    ).map((entry) => entry.toString())
  }
  \<close>
\<close>

definition queryRelSrcPaths :: "env \<Rightarrow> string \<Rightarrow> string \<Rightarrow> string list" where
  "queryRelSrcPaths e pdir entryId =
     globby e ((if entryId = ''.'' then ''index'' else strip_dot_slash entryId) @ ''.{ts,tsx}'')
       (joinPaths [pdir, ''src''])"

text \<open>
  \<^verbatim>\<open>analyzePkg\<close> starts one asynchronous task per declared entry and joins them with
  \<^verbatim>\<open>Promise.all\<close>. A task reads only its own entry and writes to the three shared
  maps; the writes of different tasks land in the order in which their awaits happen to
  complete. A task is therefore the list of its writes, in its own program order (or
  the error that rejects it), and a run of the analysis is an interleaving of the task
  lists.
\<close>

datatype map_write =
    SetContent string jsval
  | SetRelSrcPaths string "string list"
  | SetIifeContent string jsval

definition truthy_str :: "string option \<Rightarrow> bool" where
  "truthy_str s = (s \<noteq> None \<and> s \<noteq> Some [])"

fun iife_writes ::
  "env \<Rightarrow> string \<Rightarrow> string \<Rightarrow> string list \<Rightarrow> error + map_write list" where
  "iife_writes e pdir iifeGenerator [] = Inr []"
| "iife_writes e pdir iifeGenerator (relSrcPath # rest) =
     (case generateEntryContent (modules e) (remove_first_ts relSrcPath)
             (joinPaths [pdir, iifeGenerator]) of
        Inl err \<Rightarrow> Inl err
      | Inr contentMap \<Rightarrow>
          (case iife_writes e pdir iifeGenerator rest of
             Inl err \<Rightarrow> Inl err
           | Inr ws \<Rightarrow> Inr (map (\<lambda>(k, v). SetIifeContent k v) contentMap @ ws)))"

definition entry_sources ::
  "env \<Rightarrow> string \<Rightarrow> string \<Rightarrow> entry_config \<Rightarrow> error + (map_write list \<times> string list)" where
  "entry_sources e pdir entryId entryConfig =
     (if truthy_str (generator entryConfig) then
        (case generateEntryContent (modules e) entryId
                (joinPaths [pdir, the (generator entryConfig)]) of
           Inl err \<Rightarrow> Inl err
         | Inr contentMap \<Rightarrow>
             Inr (map (\<lambda>(k, v). SetContent k v) contentMap,
                  map (\<lambda>k. k @ ''.ts'') (map fst contentMap)))
      else Inr ([], queryRelSrcPaths e pdir entryId))"

definition iifeGenerator_of :: "entry_config \<Rightarrow> string option" where
  "iifeGenerator_of entryConfig =
     (case iife entryConfig of None \<Rightarrow> None | Some c \<Rightarrow> iife_generator c)"

definition entry_task :: "env \<Rightarrow> string \<Rightarrow> string \<times> entry_config \<Rightarrow> error + map_write list" where
  "entry_task e pdir entry =
     (case entry_sources e pdir (fst entry) (snd entry) of
        Inl err \<Rightarrow> Inl err
      | Inr (ws, relSrcPaths) \<Rightarrow>
          (if truthy_str (iifeGenerator_of (snd entry)) then
             (case iife_writes e pdir (the (iifeGenerator_of (snd entry))) relSrcPaths of
                Inl err \<Rightarrow> Inl err
              | Inr iws \<Rightarrow> Inr (ws @ [SetRelSrcPaths (fst entry) relSrcPaths] @ iws))
           else Inr (ws @ [SetRelSrcPaths (fst entry) relSrcPaths])))"

fun apply_write :: "pkg_analysis \<Rightarrow> map_write \<Rightarrow> pkg_analysis" where
  "apply_write a (SetContent k v) = a\<lparr>entryContentMap := obj_set k v (entryContentMap a)\<rparr>"
| "apply_write a (SetRelSrcPaths k ps) = a\<lparr>relSrcPathMap := obj_set k ps (relSrcPathMap a)\<rparr>"
| "apply_write a (SetIifeContent k v) =
     a\<lparr>iifeEntryContentMap := obj_set k v (iifeEntryContentMap a)\<rparr>"

definition entryConfigMap_of :: "pkg_meta \<Rightarrow> (string \<times> entry_config) list" where
  "entryConfigMap_of meta =
     (case buildConfig meta of
        None \<Rightarrow> []
      | Some bc \<Rightarrow> (case exports bc of None \<Rightarrow> [] | Some m \<Rightarrow> m))"

definition initial_analysis :: "string \<Rightarrow> pkg_meta \<Rightarrow> pkg_analysis" where
  "initial_analysis pdir meta =
     \<lparr>pkgDir = pdir, pkgMeta = meta, entryConfigMap = entryConfigMap_of meta,
      relSrcPathMap = [], entryContentMap = [], iifeEntryContentMap = []\<rparr>"

definition tasks :: "env \<Rightarrow> string \<Rightarrow> pkg_meta \<Rightarrow> (error + map_write list) list" where
  "tasks e pdir meta = map (entry_task e pdir) (entryConfigMap_of meta)"

fun first_error :: "(error + 'a) list \<Rightarrow> error option" where
  "first_error [] = None"
| "first_error (Inl err # rs) = Some err"
| "first_error (Inr x # rs) = first_error rs"

fun task_writes :: "(error + map_write list) list \<Rightarrow> map_write list list" where
  "task_writes [] = []"
| "task_writes (Inl err # rs) = task_writes rs"
| "task_writes (Inr ws # rs) = ws # task_writes rs"

text \<open>
  \<open>interleaving tss ws\<close>: the run \<open>ws\<close> takes, at each step, the next write of one of
  the task lists \<open>tss\<close>, until all are used up.
\<close>

inductive interleaving :: "'a list list \<Rightarrow> 'a list \<Rightarrow> bool" where
  finished: "concat tss = [] \<Longrightarrow> interleaving tss []"
| next_write: "i < length tss \<Longrightarrow> tss ! i = w # rest \<Longrightarrow> interleaving (tss[i := rest]) ws
         \<Longrightarrow> interleaving tss (w # ws)"

text \<open>
  The analysis that a run \<open>ws\<close> leaves behind. A failing task rejects the whole
  analysis (the error kept here is that of the first failing entry in key order).
\<close>

definition analyzePkg_run ::
  "env \<Rightarrow> string \<Rightarrow> pkg_meta \<Rightarrow> map_write list \<Rightarrow> error + pkg_analysis" where
  "analyzePkg_run e pdir meta ws =
     (case first_error (tasks e pdir meta) of
        Some err \<Rightarrow> Inl err
      | None \<Rightarrow> Inr (foldl apply_write (initial_analysis pdir meta) ws))"

text \<open>The run in which the tasks complete one after the other, in key order.\<close>

definition analyzePkg :: "env \<Rightarrow> string \<Rightarrow> pkg_meta \<Rightarrow> error + pkg_analysis" where
  "analyzePkg e pdir meta =
     analyzePkg_run e pdir meta (concat (task_writes (tasks e pdir meta)))"

section \<open>The bundler's input map\<close>

text \<open>
  \<^verbatim>\<open>
  function buildInputMap(pkgAnalysis: PkgAnalysis, ext: string): RollupInputMap {
    const { pkgDir, relSrcPathMap } = pkgAnalysis
    const inputs: { [outputId: string]: string } = {}
    for (let entryId in relSrcPathMap) {
      const relSrcPaths = relSrcPathMap[entryId]
      for (const relSrcPath of relSrcPaths) {
        const outputId = buildOutputId(relSrcPath)
        inputs[outputId] = buildTscPath(pkgDir, relSrcPath, ext)
      }
    }
    return inputs
  }
  \<close>
\<close>

definition all_relSrcPaths :: "pkg_analysis \<Rightarrow> string list" where
  "all_relSrcPaths a = concat (map snd (relSrcPathMap a))"

definition buildInputMap :: "pkg_analysis \<Rightarrow> string \<Rightarrow> (string \<times> string) list" where
  "buildInputMap a ext =
     foldl (\<lambda>inputs relSrcPath.
              obj_set (buildOutputId relSrcPath) (buildTscPath (pkgDir a) relSrcPath ext) inputs)
       [] (all_relSrcPaths a)"

section \<open>Plugins\<close>

text \<open>
  A \<^verbatim>\<open>resolveId\<close> hook returns a path, an object \<^verbatim>\<open>{ id, external: true }\<close>, or
  nothing, which defers to the next plugin; \<open>None\<close> is the deferring result.
\<close>

datatype resolved = Path string | External string

text \<open>
  \<^verbatim>\<open>
  function externalizeDepsPlugin(pkgAnalysis: PkgAnalysis): RollupPlugin {
    const { pkgMeta } = pkgAnalysis
    const deps = {
      ...pkgMeta.dependencies,
      ...pkgMeta.peerDependencies,
      // will NOT externalize devDependencies
    }
    return {
      name: 'externalize-deps',
      resolveId(id) {
        const pkgName = extractPkgName(id)
        if (pkgName && (pkgName in deps)) {
          return { id, external: true }
        }
      },
    }
  }
  \<close>
\<close>

definition spread ::
  "(string \<times> 'v) list \<Rightarrow> (string \<times> 'v) list option \<Rightarrow> (string \<times> 'v) list" where
  "spread obj src =
     (case src of None \<Rightarrow> obj
      | Some ps \<Rightarrow> foldl (\<lambda>m kv. obj_set (fst kv) (snd kv) m) obj ps)"

definition deps_of :: "pkg_meta \<Rightarrow> (string \<times> string) list" where
  "deps_of meta = spread (spread [] (dependencies meta)) (peerDependencies meta)"

definition externalizeDepsPlugin :: "pkg_analysis \<Rightarrow> string \<Rightarrow> resolved option" where
  "externalizeDepsPlugin a ident =
     (case extractPkgName ident of
        None \<Rightarrow> None
      | Some pkgName \<Rightarrow>
          (if pkgName \<noteq> [] \<and> has_property (deps_of (pkgMeta a)) pkgName
           then Some (External ident) else None))"

text \<open>
  \<^verbatim>\<open>
  function externalizeGlobals(iifeGlobals: any): RollupPlugin {
    return {
      name: 'externalize-globals',
      resolveId(id) {
        if (iifeGlobals[id]) {
          return { id, external: true }
        }
      }
    }
  }
  \<close>
  The condition is the truthiness of what the read \<^verbatim>\<open>iifeGlobals[id]\<close> finds: a global
  name is a string, and the empty string is falsy; a member of the prototype is truthy.
\<close>

definition externalizeGlobals :: "(string \<times> string) list \<Rightarrow> string \<Rightarrow> resolved option" where
  "externalizeGlobals iifeGlobals ident =
     (case get_property iifeGlobals ident of
        Missing \<Rightarrow> None
      | Inherited member \<Rightarrow> (if truthy member then Some (External ident) else None)
      | Own globalName \<Rightarrow> (if globalName \<noteq> [] then Some (External ident) else None))"

text \<open>
  \<^verbatim>\<open>
  function externalizeExportsPlugin(pkgAnalysis: PkgAnalysis): RollupPlugin {
    const { pkgDir, relSrcPathMap } = pkgAnalysis
    const tscPathMap: { [tscPath: string]: boolean } = {}
    for (let entryId in relSrcPathMap) {
      const relSrcPaths = relSrcPathMap[entryId]
      for (const relSrcPath of relSrcPaths) {
        tscPathMap[buildTscPath(pkgDir, relSrcPath, '.js')] = true
      }
    }
    return {
      name: 'externalize-exports',
      resolveId(id, importer) {
        const importPath = computeImportPath(id, importer)
        if (importPath && tscPathMap[importPath]) {
          return {
            // out source files reference eachother via .js, but esm output uses .mjs
            id: id.replace(/\.js$/, '.mjs'),
            external: true,
          }
        }
      }
    }
  }
  \<close>
\<close>

definition tscPathMap :: "pkg_analysis \<Rightarrow> (string \<times> bool) list" where
  "tscPathMap a =
     foldl (\<lambda>m relSrcPath. obj_set (buildTscPath (pkgDir a) relSrcPath ''.js'') True m)
       [] (all_relSrcPaths a)"

definition externalizeExportsPlugin ::
  "string \<Rightarrow> pkg_analysis \<Rightarrow> string \<Rightarrow> string option \<Rightarrow> resolved option" where
  "externalizeExportsPlugin cwd a ident importer =
     (case computeImportPath cwd ident importer of
        None \<Rightarrow> None
      | Some importPath \<Rightarrow>
          (if importPath \<noteq> []
              \<and> (case get_property (tscPathMap a) importPath of
                    Missing \<Rightarrow> False | Inherited member \<Rightarrow> truthy member | Own b \<Rightarrow> b)
           then Some (External (replace_js_ext ''.mjs'' ident)) else None))"

text \<open>
  \<^verbatim>\<open>
  function generatedContentPlugin(pkgAnalysis: PkgAnalysis): RollupPlugin {
    const { pkgDir, entryContentMap, iifeEntryContentMap } = pkgAnalysis
    const pathContentMap: { [path: string]: string } = {}
    for (let entryId in entryContentMap) {
      pathContentMap[buildTscPath(pkgDir, entryId, '.js')] = entryContentMap[entryId]
    }
    for (let entryId in iifeEntryContentMap) {
      pathContentMap[buildTscPath(pkgDir, entryId, '.iife.js')] = iifeEntryContentMap[entryId]
    }
    return {
      name: 'generated-content',
      async resolveId(id, importer) {
        const importPath = computeImportPath(id, importer)
        if (importPath && pathContentMap[importPath]) {
          return importPath
        }
      },
      load(id) {
        return pathContentMap[id] // if undefined, fallback to normal file load
      }
    }
  }
  \<close>
\<close>

definition pathContentMap :: "pkg_analysis \<Rightarrow> (string \<times> jsval) list" where
  "pathContentMap a =
     foldl (\<lambda>m kv. obj_set (buildTscPath (pkgDir a) (fst kv) ''.iife.js'') (snd kv) m)
       (foldl (\<lambda>m kv. obj_set (buildTscPath (pkgDir a) (fst kv) ''.js'') (snd kv) m)
          [] (entryContentMap a))
       (iifeEntryContentMap a)"

definition generatedContent_resolveId ::
  "string \<Rightarrow> pkg_analysis \<Rightarrow> string \<Rightarrow> string option \<Rightarrow> resolved option" where
  "generatedContent_resolveId cwd a ident importer =
     (case computeImportPath cwd ident importer of
        None \<Rightarrow> None
      | Some importPath \<Rightarrow>
          (if importPath \<noteq> []
              \<and> (case get_property (pathContentMap a) importPath of
                    Missing \<Rightarrow> False | Inherited member \<Rightarrow> truthy member
                  | Own content \<Rightarrow> truthy content)
           then Some (Path importPath) else None))"

definition generatedContent_load :: "pkg_analysis \<Rightarrow> string \<Rightarrow> jsval option" where
  "generatedContent_load a ident =
     (case get_property (pathContentMap a) ident of
        Missing \<Rightarrow> None | Inherited member \<Rightarrow> Some member | Own content \<Rightarrow> Some content)"

section \<open>Bundling drivers\<close>

text \<open>
  What a driver does to the bundler is the list of its calls: \<^verbatim>\<open>rollup({ input, ... })\<close>,
  \<^verbatim>\<open>bundle.write(outputOptions)\<close> and \<^verbatim>\<open>bundle.close()\<close>.
\<close>

record output_options =
  out_format :: string
  out_dir :: "string option"
  out_file :: "string option"
  out_entryFileNames :: "string option"
  out_sourcemap :: "bool option"
  out_exports :: "string option"
  out_globals :: "(string \<times> string) list option"
  out_name :: "string option"

datatype bundler_call =
    Rollup "(string \<times> string) list"
  | BundleWrite output_options
  | BundleClose

definition buildEsmOutputOptions :: "string \<Rightarrow> bool \<Rightarrow> output_options" where
  "buildEsmOutputOptions pdir isDev =
     \<lparr>out_format = ''esm'', out_dir = Some (joinPaths [pdir, ''dist'']), out_file = None,
      out_entryFileNames = Some ''[name].mjs'', out_sourcemap = Some isDev,
      out_exports = None, out_globals = None, out_name = None\<rparr>"

definition buildCjsOutputOptions :: "string \<Rightarrow> output_options" where
  "buildCjsOutputOptions pdir =
     \<lparr>out_format = ''cjs'', out_dir = Some (joinPaths [pdir, ''dist'']), out_file = None,
      out_entryFileNames = Some ''[name].cjs'', out_sourcemap = None,
      out_exports = Some ''named'', out_globals = None, out_name = None\<rparr>"

text \<open>
  \<^verbatim>\<open>
  async function bundleModules(pkgAnalysis: PkgAnalysis, isDev: boolean): Promise<void> {
    const buildConfig = pkgAnalysis.pkgMeta.buildConfig || {}
    const esmEnabled = buildConfig.esm ?? true
    const cjsEnabled = buildConfig.cjs ?? true
    if (!esmEnabled && !cjsEnabled) {
      return Promise.resolve()
    }
    return rollup({
      input: buildInputMap(pkgAnalysis, '.js'),
      plugins: buildModulePlugins(pkgAnalysis, isDev),
    }).then((bundle) => {
      return Promise.all([
        (esmEnabled) && bundle.write(buildEsmOutputOptions(pkgAnalysis.pkgDir, isDev)),
        (!isDev && cjsEnabled) && bundle.write(buildCjsOutputOptions(pkgAnalysis.pkgDir)),
      ]).then(() => {
        bundle.close()
      })
    })
  }
  \<close>
\<close>

definition flag_or_true :: "bool option \<Rightarrow> bool" where
  "flag_or_true flag = (case flag of None \<Rightarrow> True | Some b \<Rightarrow> b)"

definition esmEnabled :: "pkg_analysis \<Rightarrow> bool" where
  "esmEnabled a =
     (case buildConfig (pkgMeta a) of None \<Rightarrow> True | Some bc \<Rightarrow> flag_or_true (esm bc))"

definition cjsEnabled :: "pkg_analysis \<Rightarrow> bool" where
  "cjsEnabled a =
     (case buildConfig (pkgMeta a) of None \<Rightarrow> True | Some bc \<Rightarrow> flag_or_true (cjs bc))"

definition bundleModules :: "pkg_analysis \<Rightarrow> bool \<Rightarrow> bundler_call list" where
  "bundleModules a isDev =
     (if \<not> esmEnabled a \<and> \<not> cjsEnabled a then []
      else
        [Rollup (buildInputMap a ''.js'')]
        @ (if esmEnabled a then [BundleWrite (buildEsmOutputOptions (pkgDir a) isDev)] else [])
        @ (if \<not> isDev \<and> cjsEnabled a then [BundleWrite (buildCjsOutputOptions (pkgDir a))] else [])
        @ [BundleClose])"

text \<open>
  \<^verbatim>\<open>
  function buildIifeOutputOptions(pkgDir, entryConfig, relSrcPath): RollupOutputOptions {
    const iifeConfig = entryConfig.iife || {}
    return {
      format: 'iife',
      file: joinPaths(pkgDir, 'dist', buildOutputId(relSrcPath)) + '.js',
      globals: iifeConfig.globals || {},
      ...(
        typeof iifeConfig.name === 'string'
          ? { name: iifeConfig.name }
          : { exports: 'none' }
      )
    }
  }
  \<close>
\<close>

definition globals_of :: "iife_config \<Rightarrow> (string \<times> string) list" where
  "globals_of iifeConfig = (case iife_globals iifeConfig of None \<Rightarrow> [] | Some g \<Rightarrow> g)"

definition empty_iife_config :: iife_config where
  "empty_iife_config = \<lparr>iife_name = None, iife_globals = None, iife_generator = None\<rparr>"

definition buildIifeOutputOptions :: "string \<Rightarrow> entry_config \<Rightarrow> string \<Rightarrow> output_options" where
  "buildIifeOutputOptions pdir entryConfig relSrcPath =
     (let iifeConfig = (case iife entryConfig of None \<Rightarrow> empty_iife_config | Some c \<Rightarrow> c)
      in \<lparr>out_format = ''iife'', out_dir = None,
          out_file = Some (joinPaths [pdir, ''dist'', buildOutputId relSrcPath] @ ''.js''),
          out_entryFileNames = None, out_sourcemap = None,
          out_exports = (if iife_name iifeConfig = None then Some ''none'' else None),
          out_globals = Some (globals_of iifeConfig),
          out_name = iife_name iifeConfig\<rparr>)"

text \<open>
  \<^verbatim>\<open>
  function bundleIifes(pkgAnalysis: PkgAnalysis): Promise<void> {
    const { pkgDir, entryConfigMap, relSrcPathMap } = pkgAnalysis
    const promises: Promise<void>[] = []
    for (const entryId in relSrcPathMap) {
      const relSrcPaths = relSrcPathMap[entryId]
      const entryConfig = entryConfigMap[entryId]
      const iifeConfig = entryConfig.iife
      if (iifeConfig) {
        for (const relSrcPath of relSrcPaths) {
          const outputOptions = buildIifeOutputOptions(pkgDir, entryConfig, relSrcPath)
          promises.push(
            rollup({
              input: buildTscPath(pkgDir, relSrcPath, '.iife.js'),
              plugins: buildIifePlugins(pkgAnalysis, iifeConfig.globals || {}),
            }).then((bundle) => {
              return bundle.write(outputOptions)
                .then(() => Promise.all([
                  bundle.close(),
                  minifyFile(outputOptions.file!),
                ]).then())
            })
          )
        }
      }
    }
    return Promise.all(promises).then()
  }
  \<close>
\<close>

text \<open>
  One bundler pass is recorded with the entry and source path it was started for, its
  input, the globals its plugin list externalizes, its output options and the file the
  minifier writes (\<^verbatim>\<open>unminifiedIifePath.replace(/\.js$/, '.min.js')\<close>).
\<close>

record iife_pass =
  pass_entryId :: string
  pass_relSrcPath :: string
  pass_input :: string
  pass_globals :: "(string \<times> string) list"
  pass_output :: output_options
  pass_minified :: string

definition iife_pass_for ::
  "string \<Rightarrow> string \<Rightarrow> entry_config \<Rightarrow> iife_config \<Rightarrow> string \<Rightarrow> iife_pass" where
  "iife_pass_for pdir entryId entryConfig iifeConfig relSrcPath =
     \<lparr>pass_entryId = entryId, pass_relSrcPath = relSrcPath,
      pass_input = buildTscPath pdir relSrcPath ''.iife.js'',
      pass_globals = globals_of iifeConfig,
      pass_output = buildIifeOutputOptions pdir entryConfig relSrcPath,
      pass_minified =
        replace_js_ext ''.min.js'' (joinPaths [pdir, ''dist'', buildOutputId relSrcPath] @ ''.js'')\<rparr>"

fun iife_loop ::
  "string \<Rightarrow> (string \<times> entry_config) list \<Rightarrow> (string \<times> string list) list
     \<Rightarrow> iife_pass list \<times> error option" where
  "iife_loop pdir ecm [] = ([], None)"
| "iife_loop pdir ecm ((entryId, relSrcPaths) # rest) =
     (case get_property ecm entryId of
        Missing \<Rightarrow> ([], Some TypeError)
      | Inherited member \<Rightarrow> iife_loop pdir ecm rest
      | Own entryConfig \<Rightarrow>
          (case iife entryConfig of
             None \<Rightarrow> iife_loop pdir ecm rest
           | Some iifeConfig \<Rightarrow>
               (map (iife_pass_for pdir entryId entryConfig iifeConfig) relSrcPaths
                  @ fst (iife_loop pdir ecm rest),
                snd (iife_loop pdir ecm rest))))"

text \<open>
  The passes started, in order, and the error that stopped the loop, if any: reading
  \<^verbatim>\<open>.iife\<close> of a missing entry configuration throws, and a member of the prototype
  found in its place has no \<^verbatim>\<open>iife\<close>.
\<close>

definition bundleIifes :: "pkg_analysis \<Rightarrow> iife_pass list \<times> error option" where
  "bundleIifes a = iife_loop (pkgDir a) (entryConfigMap a) (relSrcPathMap a)"

definition declares_iife :: "pkg_analysis \<Rightarrow> string \<Rightarrow> bool" where
  "declares_iife a entryId =
     (case map_of (entryConfigMap a) entryId of
        None \<Rightarrow> False
      | Some entryConfig \<Rightarrow> iife entryConfig \<noteq> None)"

section \<open>Example packages\<close>

text \<open>
  A package in \<^verbatim>\<open>/pkg\<close> with two generator modules: \<^verbatim>\<open>scripts/locales.js\<close> returns an
  object with the keys \<^verbatim>\<open>a\<close> and \<^verbatim>\<open>b\<close>, \<^verbatim>\<open>scripts/all.js\<close> returns a string; any
  other path loads a module without a callable default export.
\<close>

definition ex_modules :: "string \<Rightarrow> generator_export" where
  "ex_modules path =
     (if path = ''/pkg/scripts/locales.js''
      then Callable (\<lambda>entryId. Returns (JObj [(''a'', JStr ''export default 1''),
                                               (''b'', JStr ''export default 2'')]))
      else if path = ''/pkg/scripts/all.js''
      then Callable (\<lambda>entryId. Returns (JStr ''export {}''))
      else NotCallable)"

definition ex_env :: env where
  "ex_env = \<lparr>modules = ex_modules, globby = (\<lambda>pattern cwd. [])\<rparr>"

definition plain_entry :: entry_config where
  "plain_entry = \<lparr>generator = None, iife = None\<rparr>"

definition iife_entry :: entry_config where
  "iife_entry = \<lparr>generator = None,
                 iife = Some \<lparr>iife_name = Some ''FullCalendar'',
                              iife_globals = Some [(''jquery'', ''jQuery'')],
                              iife_generator = None\<rparr>\<rparr>"

definition meta_with :: "build_config \<Rightarrow> pkg_meta" where
  "meta_with bc = \<lparr>buildConfig = Some bc, dependencies = None, peerDependencies = None,
                   devDependencies = None\<rparr>"

text \<open>ESM switched off, CJS left at its default, one entry \<^verbatim>\<open>.\<close> found in \<^verbatim>\<open>index.ts\<close>.\<close>

definition ex_cjs_only :: pkg_analysis where
  "ex_cjs_only =
     \<lparr>pkgDir = ''/pkg'',
      pkgMeta = meta_with \<lparr>esm = Some False, cjs = None, types = None,
                           exports = Some [(''.'', plain_entry)]\<rparr>,
      entryConfigMap = [(''.'', plain_entry)],
      relSrcPathMap = [(''.'', [''index.ts''])],
      entryContentMap = [], iifeEntryContentMap = []\<rparr>"

text \<open>
  Two entries, \<^verbatim>\<open>a\<close> and \<^verbatim>\<open>./a\<close>, both with an IIFE configuration; the file-system
  query finds \<^verbatim>\<open>a.ts\<close> for each. A third entry \<^verbatim>\<open>./b\<close> has none.
\<close>

definition ex_iife_pair :: pkg_analysis where
  "ex_iife_pair =
     \<lparr>pkgDir = ''/pkg'',
      pkgMeta = meta_with \<lparr>esm = None, cjs = None, types = None,
                           exports = Some [(''a'', iife_entry), (''./a'', iife_entry),
                                           (''./b'', plain_entry)]\<rparr>,
      entryConfigMap = [(''a'', iife_entry), (''./a'', iife_entry), (''./b'', plain_entry)],
      relSrcPathMap = [(''a'', [''a.ts'']), (''./a'', [''a.ts'']), (''./b'', [''b.ts''])],
      entryContentMap = [], iifeEntryContentMap = []\<rparr>"

text \<open>Two entries found in \<^verbatim>\<open>index.ts\<close> and \<^verbatim>\<open>foo.ts\<close>.\<close>

definition ex_two_entries :: pkg_analysis where
  "ex_two_entries =
     \<lparr>pkgDir = ''/pkg'',
      pkgMeta = meta_with \<lparr>esm = None, cjs = None, types = None,
                           exports = Some [(''.'', plain_entry), (''./foo'', plain_entry)]\<rparr>,
      entryConfigMap = [(''.'', plain_entry), (''./foo'', plain_entry)],
      relSrcPathMap = [(''.'', [''index.ts'']), (''./foo'', [''foo.ts''])],
      entryContentMap = [], iifeEntryContentMap = []\<rparr>"

text \<open>
  Two generated entries whose expansions meet in \<^verbatim>\<open>./locales/a\<close>: the wildcard entry
  \<^verbatim>\<open>./locales/*\<close> and the plain entry \<^verbatim>\<open>./locales/a\<close>; the writes of their two tasks.
\<close>

definition ex_locales_meta :: pkg_meta where
  "ex_locales_meta =
     meta_with \<lparr>esm = None, cjs = None, types = None,
                exports = Some [(''./locales/*'', \<lparr>generator = Some ''./scripts/locales.js'',
                                                   iife = None\<rparr>),
                                (''./locales/a'', \<lparr>generator = Some ''./scripts/all.js'',
                                                   iife = None\<rparr>)]\<rparr>"

definition ex_wildcard_task :: "map_write list" where
  "ex_wildcard_task =
     [SetContent ''./locales/a'' (JStr ''export default 1''),
      SetContent ''./locales/b'' (JStr ''export default 2''),
      SetRelSrcPaths ''./locales/*'' [''./locales/a.ts'', ''./locales/b.ts'']]"

definition ex_plain_task :: "map_write list" where
  "ex_plain_task =
     [SetContent ''./locales/a'' (JStr ''export {}''),
      SetRelSrcPaths ''./locales/a'' [''./locales/a.ts'']]"

text \<open>
  A manifest with runtime dependencies \<^verbatim>\<open>lodash\<close> and \<^verbatim>\<open>d3\<close>, the peer dependency
  \<^verbatim>\<open>@fullcalendar/core\<close> and the development dependency \<^verbatim>\<open>moment\<close>.
\<close>

definition ex_deps :: pkg_analysis where
  "ex_deps =
     \<lparr>pkgDir = ''/pkg'',
      pkgMeta = \<lparr>buildConfig = None,
                 dependencies = Some [(''lodash'', ''^4.17.0''), (''d3'', ''^7.0.0'')],
                 peerDependencies = Some [(''@fullcalendar/core'', ''^6.0.0'')],
                 devDependencies = Some [(''moment'', ''^2.29.0'')]\<rparr>,
      entryConfigMap = [], relSrcPathMap = [], entryContentMap = [],
      iifeEntryContentMap = []\<rparr>"

text \<open>
  Generators for a wildcard entry whose result has a key with a dollar sign: the key
  \<^verbatim>\<open>$&\<close> alone, and the two keys \<^verbatim>\<open>$$\<close> and \<^verbatim>\<open>$\<close>.
\<close>

definition ex_dollar_modules :: "string \<Rightarrow> generator_export" where
  "ex_dollar_modules path =
     (if path = ''/pkg/scripts/amp.js''
      then Callable (\<lambda>entryId. Returns (JObj [(''$&'', JStr ''export default 1'')]))
      else if path = ''/pkg/scripts/two.js''
      then Callable (\<lambda>entryId. Returns (JObj [(''$$'', JStr ''export default 1''),
                                               (''$'', JStr ''export default 2'')]))
      else NotCallable)"

text \<open>
  The main entry \<^verbatim>\<open>.\<close> produced by the generator \<^verbatim>\<open>scripts/all.js\<close>, and the analysis
  of that package.
\<close>

definition ex_main_meta :: pkg_meta where
  "ex_main_meta =
     meta_with \<lparr>esm = None, cjs = None, types = None,
                exports = Some [(''.'', \<lparr>generator = Some ''./scripts/all.js'',
                                         iife = None\<rparr>)]\<rparr>"

definition ex_main_analysis :: pkg_analysis where
  "ex_main_analysis =
     \<lparr>pkgDir = ''/pkg'', pkgMeta = ex_main_meta,
      entryConfigMap = [(''.'', \<lparr>generator = Some ''./scripts/all.js'', iife = None\<rparr>)],
      relSrcPathMap = [(''.'', [''..ts''])],
      entryContentMap = [(''.'', JStr ''export {}'')],
      iifeEntryContentMap = []\<rparr>"

text \<open>The wildcard entry \<^verbatim>\<open>./plugins/*\<close> with the generator \<^verbatim>\<open>scripts/locales.js\<close>.\<close>

definition ex_plugins_meta :: pkg_meta where
  "ex_plugins_meta =
     meta_with \<lparr>esm = None, cjs = None, types = None,
                exports = Some [(''./plugins/*'', \<lparr>generator = Some ''./scripts/locales.js'',
                                                   iife = None\<rparr>)]\<rparr>"

text \<open>
  A generator that throws, and a module path at which the dynamic import is rejected.
\<close>

definition ex_throwing_generator :: "string \<Rightarrow> call_result" where
  "ex_throwing_generator entryId = Throws (JStr ''boom'')"

definition ex_failing_modules :: "string \<Rightarrow> generator_export" where
  "ex_failing_modules path =
     (if path = ''/pkg/scripts/throws.js'' then Callable ex_throwing_generator
      else if path = ''/pkg/scripts/absent.js'' then ImportRejects (JStr ''Cannot find module'')
      else ex_modules path)"

section \<open>Auxiliary notions\<close>

text \<open>A string value; an object value, which \<^verbatim>\<open>null\<close> is not.\<close>

fun is_string :: "jsval \<Rightarrow> bool" where
  "is_string (JStr s) = True"
| "is_string v = False"

fun is_object :: "jsval \<Rightarrow> bool" where
  "is_object (JObj ps) = True"
| "is_object v = False"

text \<open>
  A list of writes is single-valued when it never stores two different source-path
  lists under one entry identifier.
\<close>

definition single_valued_writes :: "map_write list \<Rightarrow> bool" where
  "single_valued_writes ws =
     (\<forall>k ps ps'. SetRelSrcPaths k ps \<in> set ws \<and> SetRelSrcPaths k ps' \<in> set ws \<longrightarrow> ps = ps')"

text \<open>The names declared in one dependency map of the manifest.\<close>

definition dep_names :: "(string \<times> string) list option \<Rightarrow> string set" where
  "dep_names deps = (case deps of None \<Rightarrow> {} | Some ps \<Rightarrow> fst ` set ps)"

text \<open>
  A plain path segment is a name: not empty, not \<^verbatim>\<open>.\<close> or \<^verbatim>\<open>..\<close>, without a slash.
  The last segment of a path is what follows its last slash, the directory part what
  comes before, slash included. An ordinary entry identifier ends in a plain segment
  and not in \<^verbatim>\<open>.ts\<close> or \<^verbatim>\<open>.tsx\<close>.
\<close>

definition plain_segment :: "string \<Rightarrow> bool" where
  "plain_segment seg = (seg \<noteq> [] \<and> seg \<noteq> ''.'' \<and> seg \<noteq> ''..'' \<and> CHR ''/'' \<notin> set seg)"

definition last_segment :: "string \<Rightarrow> string" where
  "last_segment e = rev (takeWhile (\<lambda>c. c \<noteq> CHR ''/'') (rev e))"

definition dir_part :: "string \<Rightarrow> string" where
  "dir_part e = rev (dropWhile (\<lambda>c. c \<noteq> CHR ''/'') (rev e))"

definition ordinary_entry :: "string \<Rightarrow> bool" where
  "ordinary_entry e =
     (plain_segment (last_segment e) \<and> \<not> ends_with e ''.ts'' \<and> \<not> ends_with e ''.tsx'')"

section \<open>Properties of objects used as maps\<close>

lemma insert_index_conv:
  "key \<notin> fst ` set obj \<Longrightarrow> map_of (insert_index key v obj) = (map_of obj)(key \<mapsto> v)"
proof (induction obj)
  case Nil
  then show ?case by simp
next
  case (Cons p ps)
  then have "fst p \<noteq> key" by auto
  with Cons show ?case by (cases p) (auto simp add: fun_upd_twist)
qed

lemma insert_index_dom: "fst ` set (insert_index key v obj) = insert key (fst ` set obj)"
  by (induction obj) auto

lemma obj_set_conv: "map_of (obj_set key v obj) = (map_of obj)(key \<mapsto> v)"
  by (simp add: obj_set_def insert_index_conv update_conv')

lemma obj_set_dom: "fst ` set (obj_set key v obj) = insert key (fst ` set obj)"
  by (simp add: obj_set_def insert_index_dom dom_update)

lemma obj_set_empty [simp]: "obj_set key v [] = [(key, v)]"
  by (simp add: obj_set_def)

lemma obj_set_fresh:
  "\<not> is_index_key key \<Longrightarrow> key \<notin> fst ` set obj \<Longrightarrow> obj_set key v obj = obj @ [(key, v)]"
  by (induction obj) (auto simp add: obj_set_def)

lemma inherited_truthy: "inherited_member key = Some member \<Longrightarrow> truthy member"
  by (auto simp add: inherited_member_def split: if_splits)

lemma inherited_names:
  "inherited_member key \<noteq> None \<longleftrightarrow> key \<in> set object_prototype_names"
  by (auto simp add: inherited_member_def object_prototype_names_def)

lemma get_property_own: "map_of obj key = Some v \<Longrightarrow> get_property obj key = Own v"
  by (simp add: get_property_def)

lemma has_property_iff:
  "has_property obj key \<longleftrightarrow> key \<in> fst ` set obj \<or> key \<in> set object_prototype_names"
proof (cases "map_of obj key")
  case None
  then have "key \<notin> fst ` set obj" by (simp add: map_of_eq_None_iff)
  with None show ?thesis
    using inherited_names [of key]
    by (auto simp add: has_property_def get_property_def split: option.splits)
next
  case (Some v)
  then have "key \<in> fst ` set obj" by (metis map_of_eq_None_iff option.distinct(1))
  with Some show ?thesis by (simp add: has_property_def get_property_def)
qed

section \<open>Properties of the string helpers\<close>

lemma ends_with_append [simp]: "ends_with (p @ e) e"
  by (simp add: ends_with_def)

lemma chop_append: "n = length e \<Longrightarrow> chop n (p @ e) = p"
  by (simp add: chop_def)

lemma ends_with_last: "ends_with s suf \<Longrightarrow> suf \<noteq> [] \<Longrightarrow> s \<noteq> [] \<and> last s = last suf"
  unfolding ends_with_def
  by (metis append_take_drop_id last_appendR list.size(3) not_less_eq_eq le_zero_eq length_0_conv)

lemma strip_script_ext_append:
  assumes "e \<in> {''.js'', ''.jsx'', ''.ts'', ''.tsx''}"
  shows "strip_script_ext (p @ e) = p"
proof -
  have x: "\<not> ends_with (p @ ''.js'') ''.jsx''" "\<not> ends_with (p @ ''.js'') ''.tsx''"
          "\<not> ends_with (p @ ''.ts'') ''.jsx''" "\<not> ends_with (p @ ''.ts'') ''.tsx''"
    using ends_with_last by fastforce+
  have a: "strip_script_ext (p @ ''.js'') = p"
    by (simp add: strip_script_ext_def x chop_append)
  have b: "strip_script_ext (p @ ''.ts'') = p"
    by (simp add: strip_script_ext_def x chop_append)
  have c: "strip_script_ext (p @ ''.jsx'') = p"
    by (simp add: strip_script_ext_def chop_append)
  have d: "strip_script_ext (p @ ''.tsx'') = p"
    by (simp add: strip_script_ext_def chop_append)
  from assms a b c d show ?thesis by auto
qed

lemma strip_dot_slash_prefix [simp]: "strip_dot_slash (''./'' @ r) = r"
  by (simp add: strip_dot_slash_def starts_with_def)

text \<open>
  C5. \<^const>\<open>buildOutputId\<close> is a function of the relative source path alone: it removes
  one leading \<^verbatim>\<open>./\<close> and one trailing \<^verbatim>\<open>.js\<close>, \<^verbatim>\<open>.jsx\<close>, \<^verbatim>\<open>.ts\<close> or \<^verbatim>\<open>.tsx\<close>,
  so \<^verbatim>\<open>./foo/bar.ts\<close> gives \<^verbatim>\<open>foo/bar\<close> and \<^verbatim>\<open>./index.tsx\<close> gives \<^verbatim>\<open>index\<close>;
  only one prefix and one extension go (\<^verbatim>\<open>././a.ts.ts\<close> gives \<^verbatim>\<open>./a.ts\<close>). The
  result is a value computed from the argument and nothing else, so repeated calls agree.
\<close>

theorem buildOutputId_strips:
  "buildOutputId ''./foo/bar.ts'' = ''foo/bar''
   \<and> buildOutputId ''./index.tsx'' = ''index''
   \<and> buildOutputId ''././a.ts.ts'' = ''./a.ts''
   \<and> (\<forall>p. buildOutputId (''./'' @ p @ ''.js'') = p \<and> buildOutputId (''./'' @ p @ ''.jsx'') = p
          \<and> buildOutputId (''./'' @ p @ ''.ts'') = p \<and> buildOutputId (''./'' @ p @ ''.tsx'') = p)
   \<and> (\<forall>s. buildOutputId s = strip_script_ext (strip_dot_slash s))"
proof -
  have 1: "buildOutputId ''./foo/bar.ts'' = ''foo/bar''"
    by (simp add: buildOutputId_def strip_script_ext_def strip_dot_slash_def starts_with_def
        ends_with_def chop_def)
  have 2: "buildOutputId ''./index.tsx'' = ''index''"
    by (simp add: buildOutputId_def strip_script_ext_def strip_dot_slash_def starts_with_def
        ends_with_def chop_def)
  have 3: "buildOutputId ''././a.ts.ts'' = ''./a.ts''"
    by (simp add: buildOutputId_def strip_script_ext_def strip_dot_slash_def starts_with_def
        ends_with_def chop_def)
  have 4: "buildOutputId (''./'' @ p @ e) = p"
    if "e \<in> {''.js'', ''.jsx'', ''.ts'', ''.tsx''}" for p e
    unfolding buildOutputId_def strip_dot_slash_prefix using that
    by (rule strip_script_ext_append)
  show ?thesis
    using 1 2 3 4 by (simp add: buildOutputId_def)
qed

section \<open>The module pipeline\<close>

lemma esmEnabled_iff:
  "esmEnabled a \<longleftrightarrow> \<not> (\<exists>bc. buildConfig (pkgMeta a) = Some bc \<and> esm bc = Some False)"
  by (simp add: esmEnabled_def flag_or_true_def split: option.splits)

lemma cjsEnabled_iff:
  "cjsEnabled a \<longleftrightarrow> \<not> (\<exists>bc. buildConfig (pkgMeta a) = Some bc \<and> cjs bc = Some False)"
  by (simp add: cjsEnabled_def flag_or_true_def split: option.splits)

lemma bundleModules_skip: "bundleModules a isDev = [] \<longleftrightarrow> \<not> esmEnabled a \<and> \<not> cjsEnabled a"
  by (simp add: bundleModules_def)

lemma esm_format [simp]: "out_format (buildEsmOutputOptions d isDev) = ''esm''"
  by (simp add: buildEsmOutputOptions_def)

lemma cjs_format [simp]: "out_format (buildCjsOutputOptions d) = ''cjs''"
  by (simp add: buildCjsOutputOptions_def)

lemma bundleModules_rollup:
  "(\<exists>input. Rollup input \<in> set (bundleModules a isDev)) \<longleftrightarrow> (esmEnabled a \<or> cjsEnabled a)"
  by (simp add: bundleModules_def)

lemma bundleModules_esm:
  "(\<exists>out. BundleWrite out \<in> set (bundleModules a isDev) \<and> out_format out = ''esm'')
     \<longleftrightarrow> esmEnabled a"
  by (cases "esmEnabled a"; cases "cjsEnabled a"; cases isDev)
     (simp_all add: bundleModules_def conj_disj_distribR ex_disj_distrib)

lemma bundleModules_cjs:
  "(\<exists>out. BundleWrite out \<in> set (bundleModules a isDev) \<and> out_format out = ''cjs'')
     \<longleftrightarrow> (cjsEnabled a \<and> \<not> isDev)"
  by (cases "esmEnabled a"; cases "cjsEnabled a"; cases isDev)
     (simp_all add: bundleModules_def conj_disj_distribR ex_disj_distrib)

text \<open>
  C4. \<^const>\<open>bundleModules\<close> calls the bundler unless both flags are disabled, a flag
  being disabled only when the build configuration sets it to \<^verbatim>\<open>false\<close>. When it runs
  it writes the ESM output exactly when ESM is enabled, and the CJS output exactly when
  CJS is enabled and the build is not a development build; so a development build with
  ESM disabled and CJS enabled calls the bundler, writes nothing and closes the bundle.
\<close>

theorem bundleModules_flags:
  "(bundleModules a isDev = [] \<longleftrightarrow> \<not> esmEnabled a \<and> \<not> cjsEnabled a)
   \<and> ((\<exists>input. Rollup input \<in> set (bundleModules a isDev)) \<longleftrightarrow> (esmEnabled a \<or> cjsEnabled a))
   \<and> (esmEnabled a \<longleftrightarrow> \<not> (\<exists>bc. buildConfig (pkgMeta a) = Some bc \<and> esm bc = Some False))
   \<and> (cjsEnabled a \<longleftrightarrow> \<not> (\<exists>bc. buildConfig (pkgMeta a) = Some bc \<and> cjs bc = Some False))
   \<and> ((\<exists>out. BundleWrite out \<in> set (bundleModules a isDev) \<and> out_format out = ''esm'')
        \<longleftrightarrow> esmEnabled a)
   \<and> ((\<exists>out. BundleWrite out \<in> set (bundleModules a isDev) \<and> out_format out = ''cjs'')
        \<longleftrightarrow> (cjsEnabled a \<and> \<not> isDev))
   \<and> (\<not> esmEnabled a \<and> cjsEnabled a \<longrightarrow>
        bundleModules a True = [Rollup (buildInputMap a ''.js''), BundleClose])"
proof -
  have "\<not> esmEnabled a \<and> cjsEnabled a \<longrightarrow>
        bundleModules a True = [Rollup (buildInputMap a ''.js''), BundleClose]"
    by (simp add: bundleModules_def)
  then show ?thesis
    using esmEnabled_iff [of a] cjsEnabled_iff [of a] bundleModules_skip [of a isDev]
      bundleModules_rollup [of a isDev] bundleModules_esm [of a isDev]
      bundleModules_cjs [of a isDev]
    by blast
qed

theorem bundleModules_flags_witness:
  "\<not> esmEnabled ex_cjs_only \<and> cjsEnabled ex_cjs_only
   \<and> bundleModules ex_cjs_only True
       = [Rollup [(''index'', ''/pkg/dist/.tsc/index.js'')], BundleClose]"
proof -
  have flags: "\<not> esmEnabled ex_cjs_only" "cjsEnabled ex_cjs_only"
    by (simp_all add: esmEnabled_def cjsEnabled_def ex_cjs_only_def meta_with_def
        flag_or_true_def)
  have input: "buildInputMap ex_cjs_only ''.js'' = [(''index'', ''/pkg/dist/.tsc/index.js'')]"
    by code_simp
  from bundleModules_flags [of ex_cjs_only True] flags
  have "bundleModules ex_cjs_only True
          = [Rollup (buildInputMap ex_cjs_only ''.js''), BundleClose]"
    by blast
  with flags input show ?thesis by simp
qed

section \<open>The generator adapter\<close>

lemma typeof_string: "typeof v = ''string'' \<longleftrightarrow> is_string v"
  by (cases v) simp_all

lemma typeof_object: "typeof v = ''object'' \<longleftrightarrow> is_object v \<or> v = JNull"
  by (cases v) simp_all

lemma normalize_result_cases:
  assumes "v \<noteq> JNull"
  shows "normalize_result entryId v =
           (if is_string v then
              (if has_wildcard entryId
               then Inl (Error (''Generator string output can'' @ [CHR 0x27]
                                  @ ''t have blob entrypoint name''))
               else Inr (obj_set entryId v []))
            else if is_object v then
              (if \<not> has_wildcard entryId
               then Inl (Error ''Generator object output must have blob entrypoint name'')
               else Inr (expand_keys entryId v))
            else Inl (Error ''Invalid type of generator output''))"
  using assms by (simp add: normalize_result_def typeof_string typeof_object)

lemma string_not_object: "\<not> (is_string v \<and> is_object v)"
  by (cases v) simp_all

text \<open>
  The object branch is entered for \<^verbatim>\<open>null\<close> as well, whose \<^verbatim>\<open>typeof\<close> is
  \<^verbatim>\<open>'object'\<close>: with a wildcard entry the loop over its keys does nothing and the
  adapter returns the empty mapping; with a plain entry it raises the error of the
  object branch.
\<close>

lemma generateEntryContent_null:
  assumes "mods path = Callable f" and "f entryId = Returns JNull"
  shows "generateEntryContent mods entryId path =
           (if has_wildcard entryId then Inr []
            else Inl (Error ''Generator object output must have blob entrypoint name''))"
  using assms by (simp add: generateEntryContent_def normalize_result_def expand_keys_def)

text \<open>
  C1, as the code has it. When the generator does not return \<^verbatim>\<open>null\<close>,
  \<^const>\<open>generateEntryContent\<close> raises one of its configuration errors exactly when the
  default export of the loaded module is not callable, or the generator returns a
  string and the entry identifier has a wildcard, or it returns an object and the
  identifier has none, or it returns a value that is neither a string nor an object.
  It returns a content mapping exactly when the generator returns a string for a plain
  entry or an object for a wildcard entry. A rejected import and a value thrown by the
  generator are passed on as they are; they are not configuration errors, and they
  are the only other outcomes.
\<close>

theorem generateEntryContent_outcomes:
  assumes "\<forall>f. mods generatorPath = Callable f \<longrightarrow> f entryId \<noteq> Returns JNull"
  shows
  "((\<exists>msg. generateEntryContent mods entryId generatorPath = Inl (Error msg)) \<longleftrightarrow>
      (mods generatorPath = NotCallable
       \<or> (\<exists>f v. mods generatorPath = Callable f \<and> f entryId = Returns v
            \<and> ((is_string v \<and> has_wildcard entryId)
               \<or> (is_object v \<and> \<not> has_wildcard entryId)
               \<or> (\<not> is_string v \<and> \<not> is_object v)))))
   \<and> ((\<exists>m. generateEntryContent mods entryId generatorPath = Inr m) \<longleftrightarrow>
      (\<exists>f v. mods generatorPath = Callable f \<and> f entryId = Returns v
            \<and> ((is_string v \<and> \<not> has_wildcard entryId)
               \<or> (is_object v \<and> has_wildcard entryId))))
   \<and> ((\<exists>reason. generateEntryContent mods entryId generatorPath = Inl (Thrown reason)) \<longleftrightarrow>
      ((\<exists>reason. mods generatorPath = ImportRejects reason)
       \<or> (\<exists>f reason. mods generatorPath = Callable f \<and> f entryId = Throws reason)))
   \<and> (\<forall>reason. mods generatorPath = ImportRejects reason
        \<longrightarrow> generateEntryContent mods entryId generatorPath = Inl (Thrown reason))
   \<and> (\<forall>f reason. mods generatorPath = Callable f \<and> f entryId = Throws reason
        \<longrightarrow> generateEntryContent mods entryId generatorPath = Inl (Thrown reason))
   \<and> generateEntryContent mods entryId generatorPath \<noteq> Inl TypeError"
proof (cases "mods generatorPath")
  case (ImportRejects reason)
  then show ?thesis by (simp add: generateEntryContent_def)
next
  case NotCallable
  then show ?thesis by (simp add: generateEntryContent_def)
next
  case (Callable f)
  show ?thesis
  proof (cases "f entryId")
    case (Throws reason)
    with Callable show ?thesis by (simp add: generateEntryContent_def)
  next
    case (Returns v)
    with Callable assms have "v \<noteq> JNull" by auto
    from normalize_result_cases [OF this, of entryId] Callable Returns
      string_not_object [of v]
    show ?thesis
      by (cases "is_string v"; cases "is_object v"; cases "has_wildcard entryId")
         (simp_all add: generateEntryContent_def)
  qed
qed

theorem generateEntryContent_outcomes_witness:
  "(\<exists>msg. generateEntryContent ex_failing_modules ''./locales/*'' ''/pkg/scripts/all.js''
            = Inl (Error msg))
   \<and> (\<exists>msg. generateEntryContent ex_failing_modules ''./locales-all''
              ''/pkg/scripts/locales.js'' = Inl (Error msg))
   \<and> (\<exists>msg. generateEntryContent ex_failing_modules ''./locales/*''
              ''/pkg/scripts/other.js'' = Inl (Error msg))
   \<and> (\<exists>m. generateEntryContent ex_failing_modules ''./locales/*''
              ''/pkg/scripts/locales.js'' = Inr m)
   \<and> (\<exists>m. generateEntryContent ex_failing_modules ''./locales-all''
              ''/pkg/scripts/all.js'' = Inr m)
   \<and> generateEntryContent ex_failing_modules ''./locales-all'' ''/pkg/scripts/absent.js''
       = Inl (Thrown (JStr ''Cannot find module''))
   \<and> generateEntryContent ex_failing_modules ''./locales-all'' ''/pkg/scripts/throws.js''
       = Inl (Thrown (JStr ''boom''))"
proof -
  have h: "\<forall>f. ex_failing_modules path = Callable f \<longrightarrow> f entryId \<noteq> Returns JNull"
    for path entryId
    by (auto simp add: ex_failing_modules_def ex_modules_def ex_throwing_generator_def)
  show ?thesis
    using generateEntryContent_outcomes [of ex_failing_modules "''/pkg/scripts/all.js''" "''./locales/*''",
        OF h [of "''/pkg/scripts/all.js''" "''./locales/*''"]]
      generateEntryContent_outcomes [of ex_failing_modules "''/pkg/scripts/locales.js''" "''./locales-all''",
        OF h [of "''/pkg/scripts/locales.js''" "''./locales-all''"]]
      generateEntryContent_outcomes [of ex_failing_modules "''/pkg/scripts/other.js''" "''./locales/*''",
        OF h [of "''/pkg/scripts/other.js''" "''./locales/*''"]]
      generateEntryContent_outcomes [of ex_failing_modules "''/pkg/scripts/locales.js''" "''./locales/*''",
        OF h [of "''/pkg/scripts/locales.js''" "''./locales/*''"]]
      generateEntryContent_outcomes [of ex_failing_modules "''/pkg/scripts/all.js''" "''./locales-all''",
        OF h [of "''/pkg/scripts/all.js''" "''./locales-all''"]]
      generateEntryContent_outcomes [of ex_failing_modules "''/pkg/scripts/absent.js''" "''./locales-all''",
        OF h [of "''/pkg/scripts/absent.js''" "''./locales-all''"]]
      generateEntryContent_outcomes [of ex_failing_modules "''/pkg/scripts/throws.js''" "''./locales-all''",
        OF h [of "''/pkg/scripts/throws.js''" "''./locales-all''"]]
    by (simp add: ex_failing_modules_def ex_modules_def ex_throwing_generator_def
        has_wildcard_def)
qed

text \<open>
  C1 as stated fails: the default export of \<^verbatim>\<open>scripts/throws.js\<close> is callable and the
  generator gives no result of any type, so none of the four conditions holds; the
  adapter returns no mapping, and the error it raises is the generator's own.
\<close>

theorem generateEntryContent_throw_counterexample:
  "ex_failing_modules ''/pkg/scripts/throws.js'' = Callable ex_throwing_generator
   \<and> ex_throwing_generator ''./locales-all'' = Throws (JStr ''boom'')
   \<and> generateEntryContent ex_failing_modules ''./locales-all'' ''/pkg/scripts/throws.js''
       = Inl (Thrown (JStr ''boom''))"
  by (simp add: generateEntryContent_def ex_failing_modules_def ex_throwing_generator_def)

section \<open>Externalized globals\<close>

lemma externalizeGlobals_own:
  "map_of iifeGlobals ident = Some globalName \<Longrightarrow>
     externalizeGlobals iifeGlobals ident
       = (if globalName \<noteq> [] then Some (External ident) else None)"
  by (simp add: externalizeGlobals_def get_property_def)

lemma externalizeGlobals_missing:
  "map_of iifeGlobals ident = None \<Longrightarrow> inherited_member ident = None \<Longrightarrow>
     externalizeGlobals iifeGlobals ident = None"
  by (simp add: externalizeGlobals_def get_property_def)

text \<open>
  A specifier that is no key of the globals map and names a member of
  \<^verbatim>\<open>Object.prototype\<close> is externalized: the read finds the inherited member.
\<close>

lemma externalizeGlobals_inherited:
  "map_of iifeGlobals ident = None \<Longrightarrow> ident \<in> set object_prototype_names \<Longrightarrow>
     externalizeGlobals iifeGlobals ident = Some (External ident)"
  using inherited_names [of ident]
  by (auto simp add: externalizeGlobals_def get_property_def dest: inherited_truthy)

lemma externalizeGlobals_constructor:
  "externalizeGlobals [] ''constructor'' = Some (External ''constructor'')"
  by code_simp

text \<open>
  C8, as the code has it. For a specifier that is a key of the globals map or does not
  name a member of \<^verbatim>\<open>Object.prototype\<close>, the Externalize-Globals plugin marks the
  specifier as external exactly when the globals map holds a non-empty global name
  under it, and defers otherwise: the test \<^verbatim>\<open>iifeGlobals[id]\<close> is a test of the stored
  value, not of the key.
\<close>

theorem externalizeGlobals_truthy:
  assumes "ident \<in> fst ` set iifeGlobals \<or> ident \<notin> set object_prototype_names"
  shows
  "(externalizeGlobals iifeGlobals ident = Some (External ident) \<longleftrightarrow>
      (\<exists>globalName. map_of iifeGlobals ident = Some globalName \<and> globalName \<noteq> []))
   \<and> (externalizeGlobals iifeGlobals ident = None \<longleftrightarrow>
      \<not> (\<exists>globalName. map_of iifeGlobals ident = Some globalName \<and> globalName \<noteq> []))"
proof (cases "map_of iifeGlobals ident")
  case None
  then have "ident \<notin> fst ` set iifeGlobals" by (simp add: map_of_eq_None_iff)
  with assms have "inherited_member ident = None"
    using inherited_names [of ident] by auto
  with None show ?thesis by (simp add: externalizeGlobals_missing)
next
  case (Some globalName)
  then show ?thesis by (simp add: externalizeGlobals_own)
qed

theorem externalizeGlobals_truthy_witness:
  "''jquery'' \<in> fst ` set [(''jquery'', ''jQuery'')]
   \<and> ''moment'' \<notin> set object_prototype_names
   \<and> externalizeGlobals [(''jquery'', ''jQuery'')] ''jquery'' = Some (External ''jquery'')
   \<and> externalizeGlobals [(''jquery'', ''jQuery'')] ''moment'' = None"
proof -
  have j: "''jquery'' \<in> fst ` set [(''jquery'', ''jQuery'')] \<or> ''jquery'' \<notin> set object_prototype_names"
    by simp
  have m: "''moment'' \<in> fst ` set [(''jquery'', ''jQuery'')] \<or> ''moment'' \<notin> set object_prototype_names"
    by (simp add: object_prototype_names_def)
  from externalizeGlobals_truthy [OF j] externalizeGlobals_truthy [OF m]
  show ?thesis by (simp add: object_prototype_names_def)
qed

text \<open>
  C8 as stated fails: \<^verbatim>\<open>jquery\<close> is a key of the globals map
  \<^verbatim>\<open>{"jquery": ""}\<close>, and the plugin defers on it.
\<close>

theorem externalizeGlobals_empty_name_counterexample:
  "''jquery'' \<in> fst ` set [(''jquery'', [])]
   \<and> externalizeGlobals [(''jquery'', [])] ''jquery'' = None"
  by (simp add: externalizeGlobals_def get_property_def)

section \<open>Externalized exports\<close>

lemma foldl_obj_set_True:
  "map_of (foldl (\<lambda>m r. obj_set (f r) True m) m0 rs) p = Some True
     \<longleftrightarrow> (p \<in> f ` set rs \<or> map_of m0 p = Some True)"
  by (induction rs arbitrary: m0) (auto simp add: obj_set_conv)

lemma foldl_obj_set_only_True:
  "map_of (foldl (\<lambda>m r. obj_set (f r) True m) m0 rs) p = Some False
     \<Longrightarrow> map_of m0 p = Some False"
proof (induction rs arbitrary: m0)
  case Nil
  then show ?case by simp
next
  case (Cons a rs)
  from Cons.prems have "map_of (obj_set (f a) True m0) p = Some False"
    using Cons.IH by simp
  then show ?case by (simp add: obj_set_conv split: if_splits)
qed

lemma tscPathMap_lookup:
  "map_of (tscPathMap a) p =
     (if p \<in> (\<lambda>r. buildTscPath (pkgDir a) r ''.js'') ` set (all_relSrcPaths a)
      then Some True else None)"
proof -
  let ?m = "map_of (tscPathMap a) p"
  have t: "?m = Some True \<longleftrightarrow> p \<in> (\<lambda>r. buildTscPath (pkgDir a) r ''.js'') ` set (all_relSrcPaths a)"
    unfolding tscPathMap_def by (simp add: foldl_obj_set_True)
  have f: "?m \<noteq> Some False"
    unfolding tscPathMap_def using foldl_obj_set_only_True [of _ "[]"] by fastforce
  show ?thesis
  proof (cases ?m)
    case None
    with t show ?thesis by auto
  next
    case (Some b)
    with t f show ?thesis by (cases b) auto
  qed
qed

lemma buildTscPath_nonempty: "buildTscPath d r ''.js'' \<noteq> []"
  by (simp add: buildTscPath_def)

lemma replace_js_ext_append: "replace_js_ext repl (p @ ''.js'') = p @ repl"
  by (simp add: replace_js_ext_def chop_append)

lemma prototype_name_nonempty: "p \<in> set object_prototype_names \<Longrightarrow> p \<noteq> []"
  by (auto simp add: object_prototype_names_def)

text \<open>
  What the Externalize-Exports plugin answers, for every specifier and importer: the
  specifier with its trailing \<^verbatim>\<open>.js\<close> replaced by \<^verbatim>\<open>.mjs\<close>, marked external, when
  the import path is the \<^verbatim>\<open>.js\<close> intermediate path of a resolved source path of the
  analysis, and also when the import path names a member of \<^verbatim>\<open>Object.prototype\<close>,
  which the read \<^verbatim>\<open>tscPathMap[importPath]\<close> finds; nothing otherwise.
\<close>

lemma externalizeExports_exact:
  "externalizeExportsPlugin cwd a ident importer =
     (if \<exists>importPath.
           computeImportPath cwd ident importer = Some importPath
           \<and> ((\<exists>relSrcPath. relSrcPath \<in> set (all_relSrcPaths a)
                   \<and> importPath = buildTscPath (pkgDir a) relSrcPath ''.js'')
                \<or> importPath \<in> set object_prototype_names)
      then Some (External (replace_js_ext ''.mjs'' ident))
      else None)"
proof (cases "computeImportPath cwd ident importer")
  case None
  then show ?thesis by (simp add: externalizeExportsPlugin_def)
next
  case (Some importPath)
  show ?thesis
  proof (cases "importPath \<in> (\<lambda>r. buildTscPath (pkgDir a) r ''.js'') ` set (all_relSrcPaths a)")
    case True
    then have "importPath \<noteq> []" using buildTscPath_nonempty by auto
    with True Some show ?thesis
      by (auto simp add: externalizeExportsPlugin_def get_property_def tscPathMap_lookup)
  next
    case False
    show ?thesis
    proof (cases "importPath \<in> set object_prototype_names")
      case True
      then obtain member where m: "inherited_member importPath = Some member"
        using inherited_names [of importPath] by auto
      from True have "importPath \<noteq> []" by (rule prototype_name_nonempty)
      with True False Some m inherited_truthy [OF m] show ?thesis
        by (auto simp add: externalizeExportsPlugin_def get_property_def tscPathMap_lookup)
    next
      case notproto: False
      then have "inherited_member importPath = None"
        using inherited_names [of importPath] by auto
      with notproto False Some show ?thesis
        by (auto simp add: externalizeExportsPlugin_def get_property_def tscPathMap_lookup)
    qed
  qed
qed

lemma externalizeExports_example:
  "externalizeExportsPlugin ''/cwd'' ex_two_entries ''./foo.js''
       (Some ''/pkg/dist/.tsc/index.d.ts'') = Some (External ''./foo.mjs'')
   \<and> externalizeExportsPlugin ''/cwd'' ex_two_entries ''./bar.js''
       (Some ''/pkg/dist/.tsc/index.d.ts'') = None"
  by code_simp


section \<open>Path normalization\<close>

lemma split_slash_nonempty [simp]: "split_slash s \<noteq> []"
  by (induction s) (auto split: list.splits)

lemma split_slash_no_slash: "CHR ''/'' \<notin> set s \<Longrightarrow> split_slash s = [s]"
  by (induction s) auto

lemma split_slash_sep: "split_slash (a @ CHR ''/'' # b) = split_slash a @ split_slash b"
  by (induction a) (auto split: list.splits)

lemma join_slash_Cons: "ys \<noteq> [] \<Longrightarrow> join_slash (s # ys) = s @ CHR ''/'' # join_slash ys"
  by (cases ys) simp_all

lemma join_slash_snoc: "xs \<noteq> [] \<Longrightarrow> join_slash (xs @ [y]) = join_slash xs @ CHR ''/'' # y"
  by (induction xs rule: join_slash.induct) auto

lemma join_slash_append:
  "xs \<noteq> [] \<Longrightarrow> ys \<noteq> [] \<Longrightarrow> join_slash (xs @ ys) = join_slash xs @ CHR ''/'' # join_slash ys"
  by (induction xs rule: join_slash.induct) (auto simp add: join_slash_Cons)

lemma split_join:
  "segs \<noteq> [] \<Longrightarrow> \<forall>s \<in> set segs. CHR ''/'' \<notin> set s \<Longrightarrow> split_slash (join_slash segs) = segs"
proof (induction segs rule: join_slash.induct)
  case 1
  then show ?case by simp
next
  case (2 s)
  then show ?case by (simp add: split_slash_no_slash)
next
  case (3 s t ss)
  then show ?case by (simp add: split_slash_sep split_slash_no_slash)
qed

lemma normalize_step_plain: "plain_segment seg \<Longrightarrow> normalize_step allow res seg = res @ [seg]"
  by (simp add: normalize_step_def plain_segment_def)

lemma normalize_plain_segments:
  "\<forall>s \<in> set segs. plain_segment s \<Longrightarrow> foldl (normalize_step allow) res segs = res @ segs"
  by (induction segs arbitrary: res) (simp_all add: normalize_step_plain)

lemma join_slash_last:
  "segs \<noteq> [] \<Longrightarrow> \<forall>s \<in> set segs. s \<noteq> [] \<Longrightarrow>
     join_slash segs \<noteq> [] \<and> last (join_slash segs) = last (last segs)"
  by (induction segs rule: join_slash.induct) auto

lemma ends_with_slash_last: "ends_with s ''/'' \<Longrightarrow> s \<noteq> [] \<and> last s = CHR ''/''"
  using ends_with_last [of s "''/''"] by simp

lemma normalize_plain:
  assumes plain: "\<forall>s \<in> set segs. plain_segment s" and "segs \<noteq> []"
  shows "normalizePath (CHR ''/'' # join_slash segs) = CHR ''/'' # join_slash segs"
proof -
  have noslash: "\<forall>s \<in> set segs. CHR ''/'' \<notin> set s" and nonempty: "\<forall>s \<in> set segs. s \<noteq> []"
    using plain by (auto simp add: plain_segment_def)
  have split: "split_slash (CHR ''/'' # join_slash segs) = [] # segs"
    using split_join [of segs] noslash \<open>segs \<noteq> []\<close> by simp
  have norm: "normalizeString (CHR ''/'' # join_slash segs) False = join_slash segs"
    unfolding normalizeString_def split
    using normalize_plain_segments [OF plain, of False "[]"]
    by (simp add: normalize_step_def)
  have last: "join_slash segs \<noteq> []" "last (join_slash segs) = last (last segs)"
    using join_slash_last [of segs] nonempty \<open>segs \<noteq> []\<close> by simp_all
  have "last (last segs) \<in> set (last segs)" "last segs \<in> set segs"
    using nonempty \<open>segs \<noteq> []\<close> by simp_all
  with noslash last have "last (CHR ''/'' # join_slash segs) \<noteq> CHR ''/''"
    by (metis last_ConsR)
  then have notrail: "\<not> ends_with (CHR ''/'' # join_slash segs) ''/''"
    using ends_with_slash_last by blast
  show ?thesis
    using last(1) by (simp add: normalizePath_def norm notrail isAbsolute_def starts_with_def Let_def)
qed

lemma joinPaths_plain:
  assumes A: "\<forall>s \<in> set A. plain_segment s" and B: "\<forall>s \<in> set B. plain_segment s"
    and "A \<noteq> []" and "B \<noteq> []"
  shows "joinPaths [CHR ''/'' # join_slash A, ''dist'', join_slash B]
           = (CHR ''/'' # join_slash A) @ ''/dist/'' @ join_slash B"
proof -
  define segs where "segs = A @ [''dist''] @ B"
  have plain: "\<forall>s \<in> set segs. plain_segment s" and ne: "segs \<noteq> []"
    using A B by (auto simp add: segs_def plain_segment_def)
  have jB: "join_slash B \<noteq> []"
    using join_slash_last [of B] B \<open>B \<noteq> []\<close> by (auto simp add: plain_segment_def)
  have joined: "join_slash [CHR ''/'' # join_slash A, ''dist'', join_slash B]
                  = CHR ''/'' # join_slash segs"
    using \<open>A \<noteq> []\<close> \<open>B \<noteq> []\<close> by (simp add: segs_def join_slash_append join_slash_Cons)
  have "joinPaths [CHR ''/'' # join_slash A, ''dist'', join_slash B]
          = normalizePath (CHR ''/'' # join_slash segs)"
    using jB by (simp add: joinPaths_def Let_def joined del: join_slash.simps)
  also have "\<dots> = CHR ''/'' # join_slash segs"
    by (rule normalize_plain [OF plain ne])
  also have "\<dots> = (CHR ''/'' # join_slash A) @ ''/dist/'' @ join_slash B"
    using \<open>A \<noteq> []\<close> \<open>B \<noteq> []\<close> by (simp add: segs_def join_slash_append join_slash_Cons)
  finally show ?thesis .
qed


lemma dir_last: "dir_part e @ last_segment e = e"
  unfolding dir_part_def last_segment_def
  by (metis rev_append rev_rev_ident takeWhile_dropWhile_id)

lemma dir_part_ends: "dir_part e = [] \<or> last (dir_part e) = CHR ''/''"
proof (cases "dropWhile (\<lambda>c. c \<noteq> CHR ''/'') (rev e)")
  case Nil
  then show ?thesis by (simp add: dir_part_def)
next
  case (Cons c cs)
  then have "c = CHR ''/''"
    by (metis (mono_tags, lifting) hd_dropWhile list.sel(1) list.distinct(1))
  with Cons show ?thesis by (simp add: dir_part_def)
qed

lemma last_segment_no_slash: "CHR ''/'' \<notin> set (last_segment e)"
  unfolding last_segment_def using set_takeWhileD by fastforce

lemma split_slash_dir:
  assumes "X = [] \<or> last X = CHR ''/''" and "CHR ''/'' \<notin> set n"
  shows "split_slash (X @ n) = butlast (split_slash X) @ [n]"
proof (cases "X = []")
  case True
  then show ?thesis using assms(2) by (simp add: split_slash_no_slash)
next
  case False
  with assms(1) obtain x where X: "X = x @ [CHR ''/'']"
    by (metis append_butlast_last_id)
  have "split_slash (X @ n) = split_slash x @ [n]"
    using assms(2) by (simp add: X split_slash_sep split_slash_no_slash)
  moreover have "split_slash X = split_slash x @ [[]]"
    using split_slash_sep [of x "[]"] by (simp add: X)
  ultimately show ?thesis by simp
qed


lemma plain_segment_append:
  "plain_segment n \<Longrightarrow> CHR ''/'' \<notin> set t \<Longrightarrow> plain_segment (n @ t)"
  by (cases n; cases "tl n"; cases "tl (tl n)")
     (auto simp add: plain_segment_def append_eq_Cons_conv Cons_eq_append_conv)

lemma join_slash_snoc_append: "join_slash (R @ [n @ t]) = join_slash (R @ [n]) @ t"
  by (cases "R = []") (simp_all add: join_slash_snoc)

lemma join_slash_snoc_nonempty: "n \<noteq> [] \<Longrightarrow> join_slash (R @ [n]) \<noteq> []"
  by (cases "R = []") (simp_all add: join_slash_snoc)

lemma ends_with_iff: "ends_with s suf \<longleftrightarrow> (\<exists>p. s = p @ suf)"
proof
  assume "ends_with s suf"
  then have "s = take (length s - length suf) s @ suf"
    by (metis append_take_drop_id ends_with_def)
  then show "\<exists>p. s = p @ suf" ..
next
  assume "\<exists>p. s = p @ suf"
  then show "ends_with s suf" by (auto simp add: ends_with_def)
qed

lemma ends_with_segment:
  assumes "Z = [] \<or> last Z = CHR ''/''" and "CHR ''/'' \<notin> set suf"
  shows "ends_with (Z @ n) suf \<longleftrightarrow> ends_with n suf"
proof
  assume "ends_with n suf"
  then show "ends_with (Z @ n) suf" by (auto simp add: ends_with_iff)
next
  assume "ends_with (Z @ n) suf"
  then obtain p where "Z @ n = p @ suf" by (auto simp add: ends_with_iff)
  then consider us where "Z = p @ us" "us @ n = suf" | us where "Z @ us = p" "n = us @ suf"
    by (auto simp add: append_eq_append_conv2)
  then show "ends_with n suf"
  proof cases
    case 1
    show ?thesis
    proof (cases "us = []")
      case True
      with 1 show ?thesis by (simp add: ends_with_iff)
    next
      case False
      with 1 assms(1) have "last us = CHR ''/''" by auto
      with False have "CHR ''/'' \<in> set us" by (metis last_in_set)
      with 1 assms(2) show ?thesis by auto
    qed
  next
    case 2
    then show ?thesis by (auto simp add: ends_with_iff)
  qed
qed

text \<open>The shape of a normalized path whose last segment is plain.\<close>

lemma normalize_last_plain:
  assumes X: "X \<noteq> []" "last X = CHR ''/''" and n: "plain_segment n"
  shows "\<exists>Z. (Z = [] \<or> last Z = CHR ''/'')
            \<and> (\<forall>t. CHR ''/'' \<notin> set t \<longrightarrow> normalizePath (X @ n @ t) = Z @ n @ t)"
proof -
  define R where "R = foldl (normalize_step (\<not> isAbsolute X)) [] (butlast (split_slash X))"
  define Z where "Z = (if isAbsolute X then ''/'' else []) @ (if R = [] then [] else join_slash R @ ''/'')"
  have Zend: "Z = [] \<or> last Z = CHR ''/''" by (simp add: Z_def)
  have "normalizePath (X @ n @ t) = Z @ n @ t" if t: "CHR ''/'' \<notin> set t" for t
  proof -
    have plain: "plain_segment (n @ t)" using n t by (rule plain_segment_append)
    then have noslash: "CHR ''/'' \<notin> set (n @ t)" and ne: "n @ t \<noteq> []"
      by (simp_all add: plain_segment_def)
    have abs: "isAbsolute (X @ n @ t) = isAbsolute X"
      using X(1) by (cases X) (simp_all add: isAbsolute_def starts_with_def)
    have split: "split_slash (X @ n @ t) = butlast (split_slash X) @ [n @ t]"
      using split_slash_dir [of X "n @ t"] X(2) noslash by simp
    have res: "normalizeString (X @ n @ t) (\<not> isAbsolute X) = join_slash (R @ [n @ t])"
      by (simp add: normalizeString_def split R_def normalize_step_plain [OF plain])
    have "last (X @ n @ t) \<in> set (n @ t)" using ne by (metis last_appendR last_in_set)
    with noslash have "last (X @ n @ t) \<noteq> CHR ''/''" by metis
    then have notrail: "\<not> ends_with (X @ n @ t) ''/''"
      using ends_with_slash_last by blast
    have nonempty: "join_slash (R @ [n @ t]) \<noteq> []"
      using ne by (rule join_slash_snoc_nonempty)
    have "normalizePath (X @ n @ t)
            = (if isAbsolute X then ''/'' else []) @ join_slash (R @ [n @ t])"
      using X(1) nonempty by (simp add: normalizePath_def abs res notrail Let_def)
    also have "\<dots> = Z @ n @ t"
      by (cases "R = []") (simp_all add: Z_def join_slash_snoc)
    finally show ?thesis .
  qed
  with Zend show ?thesis by blast
qed

section \<open>The IIFE pipeline\<close>

lemma iife_loop_complete:
  "fst ` set rsm \<subseteq> fst ` set ecm \<Longrightarrow>
     snd (iife_loop d ecm rsm) = None
     \<and> fst (iife_loop d ecm rsm) =
         concat (map (\<lambda>(entryId, rs).
            case iife (the (map_of ecm entryId)) of
              None \<Rightarrow> []
            | Some c \<Rightarrow> map (iife_pass_for d entryId (the (map_of ecm entryId)) c) rs) rsm)"
proof (induction rsm)
  case Nil
  then show ?case by simp
next
  case (Cons x rsm)
  obtain entryId rs where x: "x = (entryId, rs)" by (cases x)
  from Cons.prems x have "entryId \<in> fst ` set ecm" by simp
  then obtain ec where ec: "map_of ecm entryId = Some ec"
    by (metis domD dom_map_of_conv_image_fst)
  from Cons have IH: "snd (iife_loop d ecm rsm) = None"
    "fst (iife_loop d ecm rsm) =
         concat (map (\<lambda>(entryId, rs).
            case iife (the (map_of ecm entryId)) of
              None \<Rightarrow> []
            | Some c \<Rightarrow> map (iife_pass_for d entryId (the (map_of ecm entryId)) c) rs) rsm)"
    by simp_all
  show ?case
    by (cases "iife ec") (simp_all add: x ec get_property_own [OF ec] IH)
qed

lemma pass_fields [simp]:
  "pass_entryId (iife_pass_for d entryId ec c r) = entryId"
  "pass_relSrcPath (iife_pass_for d entryId ec c r) = r"
  "out_file (pass_output (iife_pass_for d entryId ec c r)) =
     Some (joinPaths [d, ''dist'', buildOutputId r] @ ''.js'')"
  by (simp_all add: iife_pass_for_def buildIifeOutputOptions_def Let_def)

text \<open>
  C6. When every entry of the source-path map has an entry configuration (as in every
  analysis that \<^const>\<open>analyzePkg_run\<close> builds), \<^const>\<open>bundleIifes\<close> starts exactly one
  pass for each pair of an entry that declares an IIFE configuration and one of its
  resolved source paths, in order, and the output file of the pass is
  \<^verbatim>\<open>joinPaths(pkgDir, 'dist', buildOutputId(relSrcPath)) + '.js'\<close>: the name comes from
  the source path and not from the entry identifier, so passes whose source paths have
  the same output identifier write the same file. When the package directory is an
  absolute path of plain segments and the output identifier a relative one, the joined
  path is the concatenation \<^verbatim>\<open>pkgDir/dist/<output identifier>.js\<close>.
\<close>

theorem bundleIifes_output_files:
  assumes "fst ` set (relSrcPathMap a) \<subseteq> fst ` set (entryConfigMap a)"
  shows "snd (bundleIifes a) = None
    \<and> map (\<lambda>p. (pass_entryId p, pass_relSrcPath p)) (fst (bundleIifes a)) =
        concat (map (\<lambda>(entryId, rs). if declares_iife a entryId then map (Pair entryId) rs else [])
                  (relSrcPathMap a))
    \<and> (\<forall>p \<in> set (fst (bundleIifes a)).
          out_file (pass_output p)
            = Some (joinPaths [pkgDir a, ''dist'', buildOutputId (pass_relSrcPath p)] @ ''.js''))
    \<and> (\<forall>p \<in> set (fst (bundleIifes a)). \<forall>q \<in> set (fst (bundleIifes a)).
          buildOutputId (pass_relSrcPath p) = buildOutputId (pass_relSrcPath q)
          \<longrightarrow> out_file (pass_output p) = out_file (pass_output q))
    \<and> (\<forall>p \<in> set (fst (bundleIifes a)). \<forall>A B.
          A \<noteq> [] \<and> B \<noteq> [] \<and> (\<forall>s \<in> set A. plain_segment s) \<and> (\<forall>s \<in> set B. plain_segment s)
          \<and> pkgDir a = CHR ''/'' # join_slash A
          \<and> buildOutputId (pass_relSrcPath p) = join_slash B
          \<longrightarrow> out_file (pass_output p)
                = Some (pkgDir a @ ''/dist/'' @ buildOutputId (pass_relSrcPath p) @ ''.js''))"
proof -
  let ?body = "\<lambda>(entryId, rs).
            case iife (the (map_of (entryConfigMap a) entryId)) of
              None \<Rightarrow> []
            | Some c \<Rightarrow> map (iife_pass_for (pkgDir a) entryId
                               (the (map_of (entryConfigMap a) entryId)) c) rs"
  from iife_loop_complete [OF assms, of "pkgDir a"]
  have ok: "snd (bundleIifes a) = None"
    and passes: "fst (bundleIifes a) = concat (map ?body (relSrcPathMap a))"
    by (simp_all add: bundleIifes_def)
  have keys: "map_of (entryConfigMap a) entryId \<noteq> None"
    if "(entryId, rs) \<in> set (relSrcPathMap a)" for entryId rs
    using that assms by (metis domIff dom_map_of_conv_image_fst fst_conv image_eqI subsetD)
  have pairs: "map (\<lambda>p. (pass_entryId p, pass_relSrcPath p)) (?body x)
      = (\<lambda>(entryId, rs). if declares_iife a entryId then map (Pair entryId) rs else []) x"
    if "x \<in> set (relSrcPathMap a)" for x
  proof -
    obtain entryId rs where x: "x = (entryId, rs)" by (cases x)
    with that keys obtain ec where ec: "map_of (entryConfigMap a) entryId = Some ec"
      by blast
    show ?thesis
      by (cases "iife ec") (simp_all add: x ec declares_iife_def comp_def)
  qed
  have 2: "map (\<lambda>p. (pass_entryId p, pass_relSrcPath p)) (fst (bundleIifes a)) =
        concat (map (\<lambda>(entryId, rs). if declares_iife a entryId then map (Pair entryId) rs else [])
                  (relSrcPathMap a))"
    unfolding passes map_concat map_map comp_def
    using pairs by (metis (no_types, lifting) map_eq_conv)
  have 3: "out_file (pass_output p)
            = Some (joinPaths [pkgDir a, ''dist'', buildOutputId (pass_relSrcPath p)] @ ''.js'')"
    if "p \<in> set (fst (bundleIifes a))" for p
    using that unfolding passes by (auto split: option.splits)
  have 4: "out_file (pass_output p)
            = Some (pkgDir a @ ''/dist/'' @ buildOutputId (pass_relSrcPath p) @ ''.js'')"
    if "p \<in> set (fst (bundleIifes a))" and "A \<noteq> []" and "B \<noteq> []"
      and "\<forall>s \<in> set A. plain_segment s" and "\<forall>s \<in> set B. plain_segment s"
      and "pkgDir a = CHR ''/'' # join_slash A"
      and "buildOutputId (pass_relSrcPath p) = join_slash B" for p A B
    using 3 [OF that(1)] joinPaths_plain [OF that(4,5,2,3)] that(6,7) by simp
  have 5: "out_file (pass_output p) = out_file (pass_output q)"
    if "p \<in> set (fst (bundleIifes a))" and "q \<in> set (fst (bundleIifes a))"
      and "buildOutputId (pass_relSrcPath p) = buildOutputId (pass_relSrcPath q)" for p q
    using 3 [OF that(1)] 3 [OF that(2)] that(3) by simp
  from ok 2 3 4 5 show ?thesis by blast
qed

theorem bundleIifes_output_files_witness:
  "fst ` set (relSrcPathMap ex_iife_pair) \<subseteq> fst ` set (entryConfigMap ex_iife_pair)
   \<and> snd (bundleIifes ex_iife_pair) = None
   \<and> map (\<lambda>p. (pass_entryId p, pass_relSrcPath p, out_file (pass_output p)))
        (fst (bundleIifes ex_iife_pair))
       = [(''a'', ''a.ts'', Some ''/pkg/dist/a.js''), (''./a'', ''a.ts'', Some ''/pkg/dist/a.js'')]"
proof -
  have keys: "fst ` set (relSrcPathMap ex_iife_pair) \<subseteq> fst ` set (entryConfigMap ex_iife_pair)"
    by (simp add: ex_iife_pair_def)
  have passes: "map (\<lambda>p. (pass_entryId p, pass_relSrcPath p, out_file (pass_output p)))
        (fst (bundleIifes ex_iife_pair))
       = [(''a'', ''a.ts'', Some ''/pkg/dist/a.js''), (''./a'', ''a.ts'', Some ''/pkg/dist/a.js'')]"
    by code_simp
  from bundleIifes_output_files [OF keys] have "snd (bundleIifes ex_iife_pair) = None"
    by blast
  with keys passes show ?thesis by blast
qed


section \<open>Package analysis under any completion order\<close>

lemma interleaving_set: "interleaving tss ws \<Longrightarrow> set ws = set (concat tss)"
proof (induction rule: interleaving.induct)
  case (finished tss)
  then show ?case by simp
next
  case (next_write i tss w rest ws)
  have a: "tss = take i tss @ (w # rest) # drop (Suc i) tss"
    using next_write.hyps(1,2) by (metis id_take_nth_drop)
  have b: "tss[i := rest] = take i tss @ rest # drop (Suc i) tss"
    using next_write.hyps(1) by (rule upd_conv_take_nth_drop)
  have "set (concat tss) = set (concat (take i tss)) \<union> set (w # rest)
          \<union> set (concat (drop (Suc i) tss))"
    by (subst a) (simp add: Un_assoc)
  moreover have "set (concat (tss[i := rest])) = set (concat (take i tss)) \<union> set rest
          \<union> set (concat (drop (Suc i) tss))"
    by (subst b) (simp add: Un_assoc)
  ultimately show ?case using next_write.IH by auto
qed

lemma interleaving_skip_empty: "interleaving tss ws \<Longrightarrow> interleaving ([] # tss) ws"
proof (induction rule: interleaving.induct)
  case (finished tss)
  then show ?case by (simp add: interleaving.finished)
next
  case (next_write i tss w rest ws)
  then show ?case
    using interleaving.next_write [of "Suc i" "[] # tss" w rest ws] by simp
qed

lemma interleaving_head: "interleaving tss ws \<Longrightarrow> interleaving (t # tss) (t @ ws)"
proof (induction t)
  case Nil
  then show ?case by (simp add: interleaving_skip_empty)
next
  case (Cons w t)
  then show ?case
    using interleaving.next_write [of 0 "(w # t) # tss" w t "t @ ws"] by simp
qed

lemma interleaving_concat: "interleaving tss (concat tss)"
  by (induction tss) (simp_all add: interleaving.finished interleaving_head)

lemma interleaving_pick:
  "i < length tss \<Longrightarrow> tss ! i = t \<Longrightarrow> interleaving (tss[i := []]) ws
     \<Longrightarrow> interleaving tss (t @ ws)"
proof (induction t arbitrary: tss)
  case Nil
  then show ?case by (metis append_Nil list_update_id)
next
  case (Cons w t)
  have "interleaving (tss[i := t]) (t @ ws)"
    using Cons.IH [of "tss[i := t]"] Cons.prems by simp
  then show ?case
    using interleaving.next_write [of i tss w t "t @ ws"] Cons.prems by simp
qed

lemma foldl_apply_write_fixed:
  "pkgDir (foldl apply_write a ws) = pkgDir a
   \<and> pkgMeta (foldl apply_write a ws) = pkgMeta a
   \<and> entryConfigMap (foldl apply_write a ws) = entryConfigMap a"
proof (induction ws arbitrary: a)
  case Nil
  then show ?case by simp
next
  case (Cons w ws)
  then show ?case by (cases w) simp_all
qed

lemma foldl_apply_write_keys:
  "fst ` set (entryContentMap (foldl apply_write a ws))
     = fst ` set (entryContentMap a) \<union> {k. \<exists>v. SetContent k v \<in> set ws}
   \<and> fst ` set (iifeEntryContentMap (foldl apply_write a ws))
     = fst ` set (iifeEntryContentMap a) \<union> {k. \<exists>v. SetIifeContent k v \<in> set ws}
   \<and> fst ` set (relSrcPathMap (foldl apply_write a ws))
     = fst ` set (relSrcPathMap a) \<union> {k. \<exists>ps. SetRelSrcPaths k ps \<in> set ws}"
proof (induction ws arbitrary: a)
  case Nil
  then show ?case by simp
next
  case (Cons w ws)
  show ?case
  proof (cases w)
    case (SetContent k v)
    then show ?thesis using Cons [of "apply_write a w"] by (auto simp add: obj_set_dom)
  next
    case (SetRelSrcPaths k ps)
    then show ?thesis using Cons [of "apply_write a w"] by (auto simp add: obj_set_dom)
  next
    case (SetIifeContent k v)
    then show ?thesis using Cons [of "apply_write a w"] by (auto simp add: obj_set_dom)
  qed
qed

lemma foldl_apply_write_relSrc:
  "single_valued_writes ws \<Longrightarrow>
     map_of (relSrcPathMap (foldl apply_write a ws)) k =
       (if \<exists>ps. SetRelSrcPaths k ps \<in> set ws
        then Some (THE ps. SetRelSrcPaths k ps \<in> set ws)
        else map_of (relSrcPathMap a) k)"
proof (induction ws arbitrary: k rule: rev_induct)
  case Nil
  then show ?case by simp
next
  case (snoc w ws)
  from snoc.prems have sv: "single_valued_writes ws"
    by (auto simp add: single_valued_writes_def)
  note IH = snoc.IH [OF sv]
  show ?case
  proof (cases w)
    case (SetContent k' v)
    then show ?thesis using IH [of k] by simp
  next
    case (SetIifeContent k' v)
    then show ?thesis using IH [of k] by simp
  next
    case (SetRelSrcPaths k' ps')
    show ?thesis
    proof (cases "k = k'")
      case True
      have "(THE ps. SetRelSrcPaths k ps \<in> set (ws @ [w])) = ps'"
        using snoc.prems True SetRelSrcPaths
        by (intro the_equality) (auto simp add: single_valued_writes_def)
      then show ?thesis using True SetRelSrcPaths by (auto simp add: obj_set_conv)
    next
      case False
      then show ?thesis using SetRelSrcPaths IH [of k] by (simp add: obj_set_conv)
    qed
  qed
qed

lemma task_writes_set:
  "set (concat (task_writes rs)) = {w. \<exists>ws. Inr ws \<in> set rs \<and> w \<in> set ws}"
  by (induction rs rule: task_writes.induct) auto

lemma iife_writes_kind:
  "iife_writes e d g rs = Inr ws \<Longrightarrow> SetRelSrcPaths k ps \<notin> set ws"
proof (induction rs arbitrary: ws)
  case Nil
  then show ?case by simp
next
  case (Cons r rs)
  then show ?case by (auto split: sum.splits)
qed

lemma entry_sources_kind:
  "entry_sources e d i c = Inr (ws, rel) \<Longrightarrow> SetRelSrcPaths k ps \<notin> set ws"
  by (auto simp add: entry_sources_def split: if_splits sum.splits)

lemma entry_task_relSrc:
  assumes "entry_task e d entry = Inr ws" and "SetRelSrcPaths k ps \<in> set ws"
  shows "k = fst entry \<and> (\<exists>ws0. entry_sources e d (fst entry) (snd entry) = Inr (ws0, ps))"
  using assms
  by (auto simp add: entry_task_def split: sum.splits if_splits prod.splits
      dest: entry_sources_kind iife_writes_kind)

lemma tasks_mem:
  "Inr ws \<in> set (tasks e d meta)
     \<longleftrightarrow> (\<exists>x \<in> set (entryConfigMap_of meta). entry_task e d x = Inr ws)"
  by (auto simp add: tasks_def intro: rev_image_eqI)

lemma tasks_single_valued:
  assumes "distinct (map fst (entryConfigMap_of meta))"
  shows "single_valued_writes (concat (task_writes (tasks e d meta)))"
  unfolding single_valued_writes_def
proof (intro allI impI)
  fix k ps ps'
  assume "SetRelSrcPaths k ps \<in> set (concat (task_writes (tasks e d meta)))
          \<and> SetRelSrcPaths k ps' \<in> set (concat (task_writes (tasks e d meta)))"
  then obtain x ws y ws' where
    x: "x \<in> set (entryConfigMap_of meta)" "entry_task e d x = Inr ws" "SetRelSrcPaths k ps \<in> set ws"
    and y: "y \<in> set (entryConfigMap_of meta)" "entry_task e d y = Inr ws'"
      "SetRelSrcPaths k ps' \<in> set ws'"
    unfolding task_writes_set tasks_mem by blast
  from entry_task_relSrc [OF x(2,3)] entry_task_relSrc [OF y(2,3)]
  have k: "fst x = k" "fst y = k"
    and src: "\<exists>ws0. entry_sources e d (fst x) (snd x) = Inr (ws0, ps)"
      "\<exists>ws0. entry_sources e d (fst y) (snd y) = Inr (ws0, ps')"
    by auto
  from assms x(1) y(1) k have "x = y"
    by (metis distinct_map inj_onD)
  with src show "ps = ps'" by auto
qed

text \<open>
  C9. The analysis does not depend on the order in which the entry tasks complete. For
  a manifest whose export map has distinct keys, any two runs (interleavings of the
  writes of the same tasks, computed from the same manifest, files and generators)
  either both fail, or both succeed with the same package directory, metadata and entry
  configurations, the same entry identifiers in the source-path map with the same
  source-path list for each, and the same keys in the two generated-content maps.
  The witness has two entries that write the same content key: the two orders leave
  different text under it, and the same keys.
\<close>

theorem analyzePkg_schedule_independent:
  assumes "distinct (map fst (entryConfigMap_of meta))"
    and "interleaving (task_writes (tasks e pdir meta)) ws1"
    and "interleaving (task_writes (tasks e pdir meta)) ws2"
  shows "(\<exists>err. analyzePkg_run e pdir meta ws1 = Inl err
               \<and> analyzePkg_run e pdir meta ws2 = Inl err)
       \<or> (\<exists>a1 a2. analyzePkg_run e pdir meta ws1 = Inr a1
               \<and> analyzePkg_run e pdir meta ws2 = Inr a2
               \<and> pkgDir a1 = pkgDir a2 \<and> pkgMeta a1 = pkgMeta a2
               \<and> entryConfigMap a1 = entryConfigMap a2
               \<and> fst ` set (relSrcPathMap a1) = fst ` set (relSrcPathMap a2)
               \<and> map_of (relSrcPathMap a1) = map_of (relSrcPathMap a2)
               \<and> fst ` set (entryContentMap a1) = fst ` set (entryContentMap a2)
               \<and> fst ` set (iifeEntryContentMap a1) = fst ` set (iifeEntryContentMap a2))"
proof (cases "first_error (tasks e pdir meta)")
  case (Some err)
  then show ?thesis by (simp add: analyzePkg_run_def)
next
  case None
  let ?init = "initial_analysis pdir meta"
  let ?a1 = "foldl apply_write ?init ws1"
  let ?a2 = "foldl apply_write ?init ws2"
  have sets: "set ws1 = set (concat (task_writes (tasks e pdir meta)))"
    "set ws2 = set (concat (task_writes (tasks e pdir meta)))"
    using assms(2,3) by (simp_all add: interleaving_set)
  have sv: "single_valued_writes ws1" "single_valued_writes ws2"
    using tasks_single_valued [OF assms(1), of e pdir] sets
    by (simp_all add: single_valued_writes_def)
  have rel: "map_of (relSrcPathMap ?a1) = map_of (relSrcPathMap ?a2)"
  proof
    fix k
    show "map_of (relSrcPathMap ?a1) k = map_of (relSrcPathMap ?a2) k"
      unfolding foldl_apply_write_relSrc [OF sv(1)] foldl_apply_write_relSrc [OF sv(2)] sets
      by simp
  qed
  have keys: "fst ` set (relSrcPathMap ?a1) = fst ` set (relSrcPathMap ?a2)"
    "fst ` set (entryContentMap ?a1) = fst ` set (entryContentMap ?a2)"
    "fst ` set (iifeEntryContentMap ?a1) = fst ` set (iifeEntryContentMap ?a2)"
    using foldl_apply_write_keys [of ?init ws1] foldl_apply_write_keys [of ?init ws2] sets
    by simp_all
  have fixed: "pkgDir ?a1 = pkgDir ?a2" "pkgMeta ?a1 = pkgMeta ?a2"
    "entryConfigMap ?a1 = entryConfigMap ?a2"
    by (simp_all add: foldl_apply_write_fixed)
  from None rel keys fixed show ?thesis
    by (simp add: analyzePkg_run_def)
qed


theorem analyzePkg_schedule_independent_witness:
  "distinct (map fst (entryConfigMap_of ex_locales_meta))
   \<and> interleaving (task_writes (tasks ex_env ''/pkg'' ex_locales_meta))
        (ex_wildcard_task @ ex_plain_task)
   \<and> interleaving (task_writes (tasks ex_env ''/pkg'' ex_locales_meta))
        (ex_plain_task @ ex_wildcard_task)
   \<and> (\<exists>a1 a2.
         analyzePkg_run ex_env ''/pkg'' ex_locales_meta (ex_wildcard_task @ ex_plain_task) = Inr a1
         \<and> analyzePkg_run ex_env ''/pkg'' ex_locales_meta (ex_plain_task @ ex_wildcard_task) = Inr a2
         \<and> fst ` set (relSrcPathMap a1) = fst ` set (relSrcPathMap a2)
         \<and> map_of (relSrcPathMap a1) = map_of (relSrcPathMap a2)
         \<and> fst ` set (entryContentMap a1) = fst ` set (entryContentMap a2)
         \<and> fst ` set (iifeEntryContentMap a1) = fst ` set (iifeEntryContentMap a2)
         \<and> map_of (entryContentMap a1) ''./locales/a'' = Some (JStr ''export {}'')
         \<and> map_of (entryContentMap a2) ''./locales/a'' = Some (JStr ''export default 1''))"
proof -
  let ?run1 = "analyzePkg_run ex_env ''/pkg'' ex_locales_meta (ex_wildcard_task @ ex_plain_task)"
  let ?run2 = "analyzePkg_run ex_env ''/pkg'' ex_locales_meta (ex_plain_task @ ex_wildcard_task)"
  have T: "task_writes (tasks ex_env ''/pkg'' ex_locales_meta) = [ex_wildcard_task, ex_plain_task]"
    by code_simp
  have d: "distinct (map fst (entryConfigMap_of ex_locales_meta))"
    by (simp add: entryConfigMap_of_def ex_locales_meta_def meta_with_def)
  have i1: "interleaving [ex_wildcard_task, ex_plain_task] (ex_wildcard_task @ ex_plain_task)"
    using interleaving_concat [of "[ex_wildcard_task, ex_plain_task]"] by simp
  have "interleaving [ex_wildcard_task, []] ex_wildcard_task"
    using interleaving_concat [of "[ex_wildcard_task, []]"] by simp
  then have i2: "interleaving [ex_wildcard_task, ex_plain_task] (ex_plain_task @ ex_wildcard_task)"
    using interleaving_pick [of 1 "[ex_wildcard_task, ex_plain_task]" ex_plain_task
        ex_wildcard_task]
    by simp
  have v1: "(case ?run1 of Inl err \<Rightarrow> None | Inr a \<Rightarrow> map_of (entryContentMap a) ''./locales/a'')
              = Some (JStr ''export {}'')"
    by code_simp
  have v2: "(case ?run2 of Inl err \<Rightarrow> None | Inr a \<Rightarrow> map_of (entryContentMap a) ''./locales/a'')
              = Some (JStr ''export default 1'')"
    by code_simp
  from analyzePkg_schedule_independent [OF d i1 [folded T] i2 [folded T]] v1 v2
  have "\<exists>a1 a2. ?run1 = Inr a1 \<and> ?run2 = Inr a2
         \<and> fst ` set (relSrcPathMap a1) = fst ` set (relSrcPathMap a2)
         \<and> map_of (relSrcPathMap a1) = map_of (relSrcPathMap a2)
         \<and> fst ` set (entryContentMap a1) = fst ` set (entryContentMap a2)
         \<and> fst ` set (iifeEntryContentMap a1) = fst ` set (iifeEntryContentMap a2)
         \<and> map_of (entryContentMap a1) ''./locales/a'' = Some (JStr ''export {}'')
         \<and> map_of (entryContentMap a2) ''./locales/a'' = Some (JStr ''export default 1'')"
    by auto
  with d i1 i2 T show ?thesis by simp
qed



text \<open>
  Every run leaves a source-path map whose entry identifiers all have an entry
  configuration.
\<close>

lemma analyzePkg_run_keys:
  assumes "interleaving (task_writes (tasks e d meta)) ws"
    and "analyzePkg_run e d meta ws = Inr a"
  shows "fst ` set (relSrcPathMap a) \<subseteq> fst ` set (entryConfigMap a)"
proof
  fix k
  assume k: "k \<in> fst ` set (relSrcPathMap a)"
  from assms(2) have a: "a = foldl apply_write (initial_analysis d meta) ws"
    by (auto simp add: analyzePkg_run_def split: option.splits)
  have ecm: "entryConfigMap a = entryConfigMap_of meta"
    by (simp add: a foldl_apply_write_fixed initial_analysis_def)
  from k obtain ps where "SetRelSrcPaths k ps \<in> set ws"
    using foldl_apply_write_keys [of "initial_analysis d meta" ws]
    by (auto simp add: a initial_analysis_def)
  then have "SetRelSrcPaths k ps \<in> set (concat (task_writes (tasks e d meta)))"
    using interleaving_set [OF assms(1)] by simp
  then obtain x tw where x: "x \<in> set (entryConfigMap_of meta)" "entry_task e d x = Inr tw"
      "SetRelSrcPaths k ps \<in> set tw"
    unfolding task_writes_set tasks_mem by blast
  from entry_task_relSrc [OF x(2,3)] have "k = fst x" by simp
  with x(1) show "k \<in> fst ` set (entryConfigMap a)" by (simp add: ecm)
qed

section \<open>Externalized dependencies\<close>

lemma spread_keys:
  "fst ` set (spread obj src)
     = fst ` set obj \<union> (case src of None \<Rightarrow> {} | Some ps \<Rightarrow> fst ` set ps)"
proof (cases src)
  case None
  then show ?thesis by (simp add: spread_def)
next
  case (Some ps)
  have "fst ` set (foldl (\<lambda>m kv. obj_set (fst kv) (snd kv) m) obj ps)
          = fst ` set obj \<union> fst ` set ps"
    by (induction ps arbitrary: obj) (simp_all add: obj_set_dom)
  with Some show ?thesis by (simp add: spread_def)
qed

lemma deps_of_keys:
  "fst ` set (deps_of meta) = dep_names (dependencies meta) \<union> dep_names (peerDependencies meta)"
  by (simp add: deps_of_def spread_keys dep_names_def)

lemma extractPkgName_nonempty: "extractPkgName ident = Some n \<Longrightarrow> n \<noteq> []"
  by (auto simp add: extractPkgName_def Let_def split: if_splits)

text \<open>
  The plugin externalizes a specifier exactly when the name that \<^const>\<open>extractPkgName\<close>
  reads off its start is a runtime or peer dependency, or a name that the test
  \<^verbatim>\<open>pkgName in deps\<close> finds on \<^verbatim>\<open>Object.prototype\<close> (of these the character class
  admits \<^verbatim>\<open>constructor\<close> only); development dependencies play no part.
\<close>

lemma externalizeDeps_iff:
  "externalizeDepsPlugin a ident =
     (if \<exists>n. extractPkgName ident = Some n
              \<and> (n \<in> dep_names (dependencies (pkgMeta a))
                        \<union> dep_names (peerDependencies (pkgMeta a))
                  \<or> n \<in> set object_prototype_names)
      then Some (External ident) else None)"
  by (auto simp add: externalizeDepsPlugin_def has_property_iff deps_of_keys
      split: option.splits dest: extractPkgName_nonempty)

lemma externalizeDeps_constructor:
  "externalizeDepsPlugin ex_deps ''constructor'' = Some (External ''constructor'')"
  by code_simp

lemma extract_lodash: "extractPkgName ''lodash/debounce'' = Some ''lodash''"
  by code_simp

lemma externalizeDeps_lodash:
  "externalizeDepsPlugin a ''lodash/debounce'' = Some (External ''lodash/debounce'')
     \<longleftrightarrow> ''lodash'' \<in> dep_names (dependencies (pkgMeta a))
                      \<union> dep_names (peerDependencies (pkgMeta a))"
  by (simp add: externalizeDeps_iff extract_lodash object_prototype_names_def)

lemma externalizeDeps_ignores_dev:
  "externalizeDepsPlugin (a\<lparr>pkgMeta := (pkgMeta a)\<lparr>devDependencies := dev\<rparr>\<rparr>) ident
     = externalizeDepsPlugin a ident"
  by (simp add: externalizeDeps_iff)

text \<open>
  C3. The claim: a specifier is externalized exactly when its leading package-name
  segment is a runtime or peer dependency. The character class of \<^const>\<open>extractPkgName\<close>
  has no digits, so the package name it reads off \<^verbatim>\<open>d3/array\<close> is \<^verbatim>\<open>d\<close>: with
  \<^verbatim>\<open>d3\<close> among the runtime dependencies the plugin defers on \<^verbatim>\<open>d3/array\<close> and on
  \<^verbatim>\<open>d3\<close> itself, while \<^verbatim>\<open>lodash/debounce\<close> is externalized.
\<close>

theorem externalizeDeps_digit_name:
  "''d3'' \<in> fst ` set (deps_of (pkgMeta ex_deps))
   \<and> extractPkgName ''d3/array'' = Some ''d''
   \<and> externalizeDepsPlugin ex_deps ''d3/array'' = None
   \<and> externalizeDepsPlugin ex_deps ''d3'' = None
   \<and> externalizeDepsPlugin ex_deps ''lodash/debounce'' = Some (External ''lodash/debounce'')"
  by code_simp

section \<open>Wildcard expansion\<close>

lemma get_substitution_plain:
  "CHR ''$'' \<notin> set repl \<Longrightarrow> get_substitution m p q repl = repl"
  by (induction m p q repl rule: get_substitution.induct) auto

lemma replace_char_plain:
  assumes "c \<in> set s" and "CHR ''$'' \<notin> set repl"
  shows "replace_char s c repl
           = takeWhile (\<lambda>x. x \<noteq> c) s @ repl @ tl (dropWhile (\<lambda>x. x \<noteq> c) s)"
proof -
  from assms(1) have "dropWhile (\<lambda>x. x \<noteq> c) s \<noteq> []"
    by (simp add: dropWhile_eq_Nil_conv)
  with assms show ?thesis
    by (auto simp add: replace_char_def Let_def get_substitution_plain)
qed

lemma foldl_obj_set_fresh:
  "distinct (map f ks) \<Longrightarrow> f ` set ks \<inter> fst ` set m = {} \<Longrightarrow>
   \<forall>k \<in> set ks. \<not> is_index_key (f k) \<Longrightarrow>
     foldl (\<lambda>m k. obj_set (f k) (g k) m) m ks = m @ map (\<lambda>k. (f k, g k)) ks"
proof (induction ks arbitrary: m)
  case Nil
  then show ?case by simp
next
  case (Cons k ks)
  from Cons.prems have fresh: "f k \<notin> fst ` set m" and plain: "\<not> is_index_key (f k)"
    by auto
  have "f ` set ks \<inter> fst ` set (m @ [(f k, g k)]) = {}"
    using Cons.prems by auto
  with Cons.IH [of "m @ [(f k, g k)]"] Cons.prems show ?case
    by (simp add: obj_set_fresh [OF plain fresh])
qed

lemma get_prop_own:
  "distinct (map fst ps) \<Longrightarrow> (k, v) \<in> set ps \<Longrightarrow> get_prop (JObj ps) k = v"
  by (simp add: get_property_def)

lemma not_index_key: "c \<in> set key \<Longrightarrow> \<not> is_digit c \<Longrightarrow> \<not> is_index_key key"
  by (auto simp add: is_index_key_def list_all_iff)

lemma expand_keys_plain:
  assumes wild: "has_wildcard entryId"
    and path: "\<exists>c \<in> set entryId. c \<noteq> CHR ''*'' \<and> \<not> is_digit c"
    and dist: "distinct (map fst ps)"
    and plain: "\<forall>k \<in> fst ` set ps. CHR ''$'' \<notin> set k"
  shows "expand_keys entryId (JObj ps)
           = map (\<lambda>(k, v). (takeWhile (\<lambda>x. x \<noteq> CHR ''*'') entryId @ k
                                 @ tl (dropWhile (\<lambda>x. x \<noteq> CHR ''*'') entryId), v)) ps"
proof -
  let ?pre = "takeWhile (\<lambda>x. x \<noteq> CHR ''*'') entryId"
  let ?post = "tl (dropWhile (\<lambda>x. x \<noteq> CHR ''*'') entryId)"
  let ?f = "\<lambda>k. ?pre @ k @ ?post"
  from wild have star: "CHR ''*'' \<in> set entryId" by (simp add: has_wildcard_def)
  have repl: "replace_char entryId (CHR ''*'') k = ?f k" if "k \<in> fst ` set ps" for k
  proof -
    from that plain have "CHR ''$'' \<notin> set k" by blast
    with star show ?thesis by (rule replace_char_plain)
  qed
  from star have "dropWhile (\<lambda>x. x \<noteq> CHR ''*'') entryId \<noteq> []"
    by (simp add: dropWhile_eq_Nil_conv)
  then have "dropWhile (\<lambda>x. x \<noteq> CHR ''*'') entryId = CHR ''*'' # ?post"
    using hd_dropWhile [of "\<lambda>x. x \<noteq> CHR ''*''" entryId]
    by (cases "dropWhile (\<lambda>x. x \<noteq> CHR ''*'') entryId") auto
  then have split: "entryId = ?pre @ CHR ''*'' # ?post"
    using takeWhile_dropWhile_id [of "\<lambda>x. x \<noteq> CHR ''*''" entryId] by simp
  from path obtain c where c: "c \<in> set entryId" "c \<noteq> CHR ''*''" "\<not> is_digit c" by blast
  from c(1) have "c \<in> set (?pre @ CHR ''*'' # ?post)" using split by simp
  with c(2) have "c \<in> set ?pre \<union> set ?post" by auto
  then have noindex: "\<not> is_index_key (?f k)" for k
    using c(3) not_index_key [of c "?f k"] by auto
  have "expand_keys entryId (JObj ps)
          = foldl (\<lambda>m k. obj_set (?f k) (get_prop (JObj ps) k) m) [] (map fst ps)"
    unfolding expand_keys_def for_in_keys.simps
    by (rule foldl_cong) (simp_all add: repl)
  also have "\<dots> = map (\<lambda>k. (?f k, get_prop (JObj ps) k)) (map fst ps)"
    using foldl_obj_set_fresh [of ?f "map fst ps" "[]" "get_prop (JObj ps)"] dist noindex
    by (simp add: distinct_map inj_on_def comp_def)
  also have "\<dots> = map (\<lambda>(k, v). (?f k, v)) ps"
    using get_prop_own [OF dist] by (auto simp add: comp_def)
  finally show ?thesis .
qed

text \<open>
  What the adapter returns on success: a string result of a plain entry gives the one
  entry under the identifier itself; an object result of a wildcard entry whose keys
  have no dollar sign gives one entry per key, in key order, under the identifier with
  its first \<^verbatim>\<open>*\<close> replaced by the key. The identifier is a path, with a character
  that is no digit beside the \<^verbatim>\<open>*\<close>, so that no expanded identifier is an array index.
\<close>

lemma generateEntryContent_string:
  assumes "mods path = Callable f" and "f entryId = Returns (JStr content)"
    and "\<not> has_wildcard entryId"
  shows "generateEntryContent mods entryId path = Inr [(entryId, JStr content)]"
  using assms by (simp add: generateEntryContent_def normalize_result_def)

lemma generateEntryContent_plain_keys:
  assumes "mods path = Callable f" and "f entryId = Returns (JObj ps)"
    and "has_wildcard entryId" and "\<exists>c \<in> set entryId. c \<noteq> CHR ''*'' \<and> \<not> is_digit c"
    and "distinct (map fst ps)" and "\<forall>k \<in> fst ` set ps. CHR ''$'' \<notin> set k"
  shows "generateEntryContent mods entryId path
           = Inr (map (\<lambda>(k, v). (takeWhile (\<lambda>x. x \<noteq> CHR ''*'') entryId @ k
                                     @ tl (dropWhile (\<lambda>x. x \<noteq> CHR ''*'') entryId), v)) ps)"
  using assms
  by (simp add: generateEntryContent_def normalize_result_def expand_keys_plain)

text \<open>
  The entry \<^verbatim>\<open>./plugins/*\<close> with the keys \<^verbatim>\<open>a\<close> and \<^verbatim>\<open>b\<close>: two expanded entries, and
  two keys of the module input map.
\<close>

lemma plugins_example:
  "generateEntryContent ex_modules ''./plugins/*'' ''/pkg/scripts/locales.js''
     = Inr [(''./plugins/a'', JStr ''export default 1''),
            (''./plugins/b'', JStr ''export default 2'')]
   \<and> (case analyzePkg ex_env ''/pkg'' ex_plugins_meta of
        Inl err \<Rightarrow> []
      | Inr a \<Rightarrow> buildInputMap a ''.js'')
       = [(''plugins/a'', ''/pkg/dist/.tsc/plugins/a.js''),
          (''plugins/b'', ''/pkg/dist/.tsc/plugins/b.js'')]"
  by code_simp

text \<open>
  C2. The claim: for a wildcard entry and an object result the returned mapping has one
  entry per key of the object, under the identifier with \<^verbatim>\<open>*\<close> replaced by the key.
  The second argument of \<^verbatim>\<open>entryId.replace('*', key)\<close> is a replacement template, so a
  key with a dollar pattern is not inserted as it is: the key \<^verbatim>\<open>$&\<close> gives the entry
  \<^verbatim>\<open>./plugins/*\<close>, and the two keys \<^verbatim>\<open>$$\<close> and \<^verbatim>\<open>$\<close> give the single entry
  \<^verbatim>\<open>./plugins/$\<close>, holding the text of the second.
\<close>

theorem generateEntryContent_dollar_keys:
  "generateEntryContent ex_dollar_modules ''./plugins/*'' ''/pkg/scripts/amp.js''
     = Inr [(''./plugins/*'', JStr ''export default 1'')]
   \<and> generateEntryContent ex_dollar_modules ''./plugins/*'' ''/pkg/scripts/two.js''
     = Inr [(''./plugins/$'', JStr ''export default 2'')]"
  by code_simp

section \<open>Generated entry points in the pipeline\<close>

lemma strip_ts_ext_append: "strip_ts_ext (J @ ''.ts'') = J"
proof -
  have "\<not> ends_with (J @ ''.ts'') ''.tsx''"
    using ends_with_last by fastforce
  then show ?thesis by (simp add: strip_ts_ext_def chop_append)
qed

text \<open>
  For an ordinary entry identifier the two intermediate paths agree, and the plugin
  holds content under the path of the input map.
\<close>

lemma buildTscPath_ordinary:
  assumes "ordinary_entry e"
  shows "buildTscPath pdir (e @ ''.ts'') ext = buildTscPath pdir e ext"
proof -
  let ?n = "last_segment e"
  from assms have n: "plain_segment ?n" and nots: "\<not> ends_with e ''.ts''" "\<not> ends_with e ''.tsx''"
    by (simp_all add: ordinary_entry_def)
  define F where "F = filter (\<lambda>arg. arg \<noteq> []) [pdir, ''dist'', ''.tsc'']"
  have F: "F \<noteq> []" by (simp add: F_def)
  define X where "X = join_slash F @ ''/'' @ dir_part e"
  have X: "X \<noteq> []" "last X = CHR ''/''"
    using dir_part_ends [of e] by (auto simp add: X_def)
  have e: "e = dir_part e @ ?n" by (simp add: dir_last)
  have ene: "e \<noteq> []" using n e by (auto simp add: plain_segment_def)
  have joined: "join_slash (F @ [e @ t]) = X @ ?n @ t" for t
    using F e by (simp add: join_slash_snoc X_def)
  have jp: "joinPaths [pdir, ''dist'', ''.tsc'', e @ t] = normalizePath (X @ ?n @ t)" for t
  proof -
    have f: "filter (\<lambda>arg. arg \<noteq> []) [pdir, ''dist'', ''.tsc'', e @ t] = F @ [e @ t]"
      using ene by (simp add: F_def)
    have ne: "X @ ?n @ t \<noteq> []" using X(1) by simp
    show ?thesis
      unfolding joinPaths_def Let_def f joined using ne by (simp only: if_False)
  qed
  from normalize_last_plain [OF X n] obtain Z where
    Z: "Z = [] \<or> last Z = CHR ''/''"
    and norm: "\<And>t. CHR ''/'' \<notin> set t \<Longrightarrow> normalizePath (X @ ?n @ t) = Z @ ?n @ t"
    by blast
  have J0: "joinPaths [pdir, ''dist'', ''.tsc'', e] = Z @ ?n"
    using jp [of "[]"] norm [of "[]"] by simp
  have J1: "joinPaths [pdir, ''dist'', ''.tsc'', e @ ''.ts''] = (Z @ ?n) @ ''.ts''"
    using jp [of "''.ts''"] norm [of "''.ts''"] by simp
  have seg: "ends_with (Z @ ?n) suf \<longleftrightarrow> ends_with e suf" if "CHR ''/'' \<notin> set suf" for suf
    using ends_with_segment [OF Z that, of ?n]
      ends_with_segment [OF dir_part_ends that, of e ?n] e by simp
  have "\<not> ends_with (Z @ ?n) ''.ts''" "\<not> ends_with (Z @ ?n) ''.tsx''"
    using nots seg by simp_all
  then have "strip_ts_ext (Z @ ?n) = Z @ ?n"
    by (simp add: strip_ts_ext_def)
  then show ?thesis
    unfolding buildTscPath_def J0 J1 strip_ts_ext_append by simp
qed

lemma foldl_obj_set_keys:
  "fst ` set (foldl (\<lambda>m kv. obj_set (f kv) (g kv) m) m0 kvs) = fst ` set m0 \<union> f ` set kvs"
  by (induction kvs arbitrary: m0) (simp_all add: obj_set_dom)

lemma pathContentMap_keys:
  "fst ` set (pathContentMap a)
     = (\<lambda>kv. buildTscPath (pkgDir a) (fst kv) ''.js'') ` set (entryContentMap a)
       \<union> (\<lambda>kv. buildTscPath (pkgDir a) (fst kv) ''.iife.js'') ` set (iifeEntryContentMap a)"
  unfolding pathContentMap_def by (simp add: foldl_obj_set_keys)

lemma generated_entry_loaded:
  assumes "(e, content) \<in> set (entryContentMap a)" and "ordinary_entry e"
  shows "\<exists>c. generatedContent_load a (buildTscPath (pkgDir a) (e @ ''.ts'') ''.js'') = Some c"
proof -
  have "buildTscPath (pkgDir a) e ''.js'' \<in> fst ` set (pathContentMap a)"
    unfolding pathContentMap_keys using assms(1) by force
  then have "map_of (pathContentMap a) (buildTscPath (pkgDir a) e ''.js'') \<noteq> None"
    by (simp add: map_of_eq_None_iff)
  then show ?thesis
    by (auto simp add: generatedContent_load_def get_property_def
        buildTscPath_ordinary [OF assms(2)])
qed

text \<open>
  C10. The claim: for each expanded entry identifier \<open>e\<close> of the generated-content map,
  the module input map sends \<^verbatim>\<open>buildOutputId(e + '.ts')\<close> to
  \<^verbatim>\<open>buildTscPath(pkgDir, e + '.ts', '.js')\<close>, and that is the path the Generated-Content
  plugin claims and serves. The plugin stores the content under
  \<^verbatim>\<open>buildTscPath(pkgDir, e, '.js')\<close>, computed from \<open>e\<close> without the \<^verbatim>\<open>.ts\<close>, and the
  two paths differ for the main entry \<^verbatim>\<open>.\<close>: the input map holds
  \<^verbatim>\<open>/pkg/dist/.tsc/..js\<close>, the content is stored under \<^verbatim>\<open>/pkg/dist/.tsc.js\<close>, and
  the plugin neither resolves nor loads the path of the input map.
\<close>

theorem generated_main_entry_not_served:
  "analyzePkg ex_env ''/pkg'' ex_main_meta = Inr ex_main_analysis
   \<and> map_of (entryContentMap ex_main_analysis) ''.'' = Some (JStr ''export {}'')
   \<and> map_of (relSrcPathMap ex_main_analysis) ''.'' = Some [''.'' @ ''.ts'']
   \<and> map_of (buildInputMap ex_main_analysis ''.js'') (buildOutputId (''.'' @ ''.ts''))
       = Some (buildTscPath ''/pkg'' (''.'' @ ''.ts'') ''.js'')
   \<and> buildTscPath ''/pkg'' (''.'' @ ''.ts'') ''.js'' = ''/pkg/dist/.tsc/..js''
   \<and> pathContentMap ex_main_analysis = [(''/pkg/dist/.tsc.js'', JStr ''export {}'')]
   \<and> generatedContent_resolveId ''/pkg'' ex_main_analysis ''/pkg/dist/.tsc/..js'' None = None
   \<and> generatedContent_load ex_main_analysis ''/pkg/dist/.tsc/..js'' = None"
  by code_simp

end
